theory Spec2Isabelle
  imports Complex_Main
begin

section \<open>JavaScript values\<close>

text \<open>
  The scan page (\<^verbatim>\<open>static/js/scan.js\<close>) and its request client
  (\<^verbatim>\<open>static/js/api.js\<close>) work on values parsed from JSON. They are modelled
  untyped, as the program has them. Text is a \<^typ>\<open>string\<close> of UTF-8 bytes. A number is
  kept as its exact rational value, or one of the three special values.
\<close>

datatype jsnum = NaN | NegInf | Fin rat | PosInf

datatype jv =
    JUndefined
  | JNull
  | JBool bool
  | JNum jsnum
  | JStr string
  | JArr "jv list"
  | JObj "(string \<times> jv) list"

text \<open>
  Everything the program throws or catches is an \<^verbatim>\<open>Error\<close> object: one made by
  \<^verbatim>\<open>new Error(msg)\<close>, or a \<^verbatim>\<open>TypeError\<close> of the engine. Both carry
  their message.
\<close>

datatype exn = Error string | TypeError string

fun message :: "exn \<Rightarrow> string" where
  "message (Error m) = m"
| "message (TypeError m) = m"

fun error_name :: "exn \<Rightarrow> string" where
  "error_name (Error m) = ''Error''"
| "error_name (TypeError m) = ''TypeError''"

text \<open>\<^verbatim>\<open>String(e)\<close> on an error object: the name, then the message when there is one.\<close>

definition String_of_error :: "exn \<Rightarrow> string" where
  "String_of_error e =
     (if message e = [] then error_name e else error_name e @ '': '' @ message e)"

text \<open>The three ways the engine refuses an operation of this program.\<close>

datatype fault =
    NotAnObject    \<comment> \<open>a property of \<^verbatim>\<open>null\<close> or \<^verbatim>\<open>undefined\<close> is read or set\<close>
  | NotAFunction   \<comment> \<open>a method is called that the value does not have\<close>
  | NotPrimitive   \<comment> \<open>an object that hides \<^verbatim>\<open>toString\<close> is converted to text\<close>

text \<open>
  The built-in text algorithms of the engine are parameters of the model: what is proved
  holds for every behaviour of \<^verbatim>\<open>JSON.parse\<close> (\<open>None\<close> is its
  \<^verbatim>\<open>SyntaxError\<close>), \<^verbatim>\<open>String.prototype.trim\<close>,
  \<^verbatim>\<open>String.prototype.toUpperCase\<close>, \<^verbatim>\<open>Number(text)\<close>, the printing of
  numbers, and the wording of the engine's own error messages.
\<close>

record builtins =
  JSON_parse :: "string \<Rightarrow> jv option"
  trim :: "string \<Rightarrow> string"
  toUpperCase :: "string \<Rightarrow> string"
  toNumber :: "string \<Rightarrow> jsnum"
  numberToString :: "jsnum \<Rightarrow> string"
  faultMessage :: "fault \<Rightarrow> string"

definition raise :: "builtins \<Rightarrow> fault \<Rightarrow> exn" where
  "raise B f = TypeError (faultMessage B f)"

fun truthy :: "jv \<Rightarrow> bool" where
  "truthy JUndefined = False"
| "truthy JNull = False"
| "truthy (JBool b) = b"
| "truthy (JNum n) = (n \<noteq> Fin 0 \<and> n \<noteq> NaN)"
| "truthy (JStr s) = (s \<noteq> [])"
| "truthy (JArr xs) = True"
| "truthy (JObj kvs) = True"

fun nullish :: "jv \<Rightarrow> bool" where
  "nullish JUndefined = True"
| "nullish JNull = True"
| "nullish v = False"

text \<open>
  \<open>field v k\<close> is \<^verbatim>\<open>v.k\<close> for a value that is neither \<^verbatim>\<open>null\<close> nor
  \<^verbatim>\<open>undefined\<close>, and for the data field names this program reads (none of them is
  a member of a built-in prototype): the own property of an object, first binding first,
  and \<^verbatim>\<open>undefined\<close> everywhere else.
\<close>

fun field :: "jv \<Rightarrow> string \<Rightarrow> jv" where
  "field (JObj kvs) k = (case map_of kvs k of Some v \<Rightarrow> v | None \<Rightarrow> JUndefined)"
| "field v k = JUndefined"

text \<open>\<^verbatim>\<open>v.k\<close> and \<^verbatim>\<open>v?.k\<close> in general.\<close>

definition get :: "builtins \<Rightarrow> jv \<Rightarrow> string \<Rightarrow> exn + jv" where
  "get B v k = (if nullish v then Inl (raise B NotAnObject) else Inr (field v k))"

definition opt_get :: "jv \<Rightarrow> string \<Rightarrow> jv" where
  "opt_get v k = (if nullish v then JUndefined else field v k)"

text \<open>\<^verbatim>\<open>a || b\<close> and \<^verbatim>\<open>a ?? b\<close> on values already computed.\<close>

definition or_else :: "jv \<Rightarrow> jv \<Rightarrow> jv" where
  "or_else a b = (if truthy a then a else b)"

definition nullish_else :: "jv \<Rightarrow> jv \<Rightarrow> jv" where
  "nullish_else a b = (if nullish a then b else a)"

text \<open>Exceptions are the left summand; \<open>bindE\<close> runs the rest when nothing was thrown.\<close>

fun bindE :: "exn + 'a \<Rightarrow> ('a \<Rightarrow> exn + 'b) \<Rightarrow> exn + 'b" where
  "bindE (Inl e) f = Inl e"
| "bindE (Inr x) f = f x"

fun collect :: "(exn + 'a) list \<Rightarrow> exn + 'a list" where
  "collect [] = Inr []"
| "collect (r # rs) = bindE r (\<lambda>x. bindE (collect rs) (\<lambda>xs. Inr (x # xs)))"

fun join_text :: "string \<Rightarrow> string list \<Rightarrow> string" where
  "join_text sep [] = []"
| "join_text sep [s] = s"
| "join_text sep (s # t # ss) = s @ sep @ join_text sep (t # ss)"

text \<open>
  \<^verbatim>\<open>String(v)\<close>, also what a template literal, \<^verbatim>\<open>+\<close> with a string and a
  DOM text setter do to \<open>v\<close>. An array prints its elements joined by commas, with
  \<^verbatim>\<open>null\<close> and \<^verbatim>\<open>undefined\<close> as the empty text. A parsed object prints as
  \<^verbatim>\<open>[object Object]\<close>, unless it has a key \<^verbatim>\<open>toString\<close>: that key hides
  the inherited method and the engine throws.
\<close>

fun to_str :: "builtins \<Rightarrow> jv \<Rightarrow> exn + string" where
  "to_str B JUndefined = Inr ''undefined''"
| "to_str B JNull = Inr ''null''"
| "to_str B (JBool b) = Inr (if b then ''true'' else ''false'')"
| "to_str B (JNum n) = Inr (numberToString B n)"
| "to_str B (JStr s) = Inr s"
| "to_str B (JArr xs) =
     bindE (collect (map (\<lambda>x. if nullish x then Inr [] else to_str B x) xs))
       (\<lambda>ss. Inr (join_text '','' ss))"
| "to_str B (JObj kvs) =
     (if map_of kvs ''toString'' \<noteq> None then Inl (raise B NotPrimitive)
      else Inr ''[object Object]'')"

text \<open>\<^verbatim>\<open>xs.join(sep)\<close>: only an array has the method.\<close>

fun join :: "builtins \<Rightarrow> jv \<Rightarrow> string \<Rightarrow> exn + string" where
  "join B (JArr xs) sep =
     bindE (collect (map (\<lambda>x. if nullish x then Inr [] else to_str B x) xs))
       (\<lambda>ss. Inr (join_text sep ss))"
| "join B JUndefined sep = Inl (raise B NotAnObject)"
| "join B JNull sep = Inl (raise B NotAnObject)"
| "join B v sep = Inl (raise B NotAFunction)"

text \<open>\<^verbatim>\<open>s.toUpperCase()\<close>: only a string has the method.\<close>

fun upper :: "builtins \<Rightarrow> jv \<Rightarrow> exn + string" where
  "upper B (JStr s) = Inr (toUpperCase B s)"
| "upper B JUndefined = Inl (raise B NotAnObject)"
| "upper B JNull = Inl (raise B NotAnObject)"
| "upper B v = Inl (raise B NotAFunction)"

section \<open>The request client\<close>

text \<open>
  \<^verbatim>\<open>apiPost(path, payload)\<close> is an async function. Its first half runs at the call
  and hands one request to \<^verbatim>\<open>fetch\<close>; its second half runs when the response
  has arrived. \<open>req_body\<close> is the value whose JSON text is sent.
\<close>

record request =
  req_path :: string
  req_method :: string
  req_headers :: "(string \<times> string) list"
  req_body :: jv

definition apiPost_request :: "string \<Rightarrow> jv \<Rightarrow> request" where
  "apiPost_request p payload =
     \<lparr> req_path = p, req_method = ''POST'',
       req_headers = [(''Content-Type'', ''application/json'')],
       req_body = nullish_else payload (JObj []) \<rparr>"

record response =
  ok :: bool
  status :: nat
  text_body :: string

text \<open>
  \<^verbatim>\<open>await fetch(...)\<close> and \<^verbatim>\<open>await res.text()\<close> reject with a
  \<^verbatim>\<open>TypeError\<close> when the transport fails; otherwise the response is there with
  its status and its text. Nothing of the page changes between the two.
\<close>

datatype fetch_outcome = NetworkFailure string | Responded response

text \<open>
  \<^verbatim>\<open>try { data = text ? JSON.parse(text) : null; }
catch { data = { error: "Non-JSON response", raw: text }; }\<close>
\<close>

definition parse_body :: "builtins \<Rightarrow> string \<Rightarrow> jv" where
  "parse_body B t =
     (if t \<noteq> [] then
        (case JSON_parse B t of
           Some v \<Rightarrow> v
         | None \<Rightarrow> JObj [(''error'', JStr ''Non-JSON response''), (''raw'', JStr t)])
      else JNull)"

text \<open>
  \<^verbatim>\<open>if (!res.ok) {
    const msg = (data && data.error) ? data.error : `HTTP ${res.status}`;
    throw new Error(msg);
}
return data;\<close>
\<close>

definition http_message :: "builtins \<Rightarrow> response \<Rightarrow> string" where
  "http_message B res = ''HTTP '' @ numberToString B (Fin (of_nat (status res)))"

definition apiPost_result :: "builtins \<Rightarrow> response \<Rightarrow> exn + jv" where
  "apiPost_result B res =
     (let data = parse_body B (text_body res) in
      if \<not> ok res then
        bindE (if truthy (if truthy data then field data ''error'' else data)
               then to_str B (field data ''error'')
               else Inr (http_message B res))
          (\<lambda>msg. Inl (Error msg))
      else Inr data)"

fun apiPost_resume :: "builtins \<Rightarrow> fetch_outcome \<Rightarrow> exn + jv" where
  "apiPost_resume B (NetworkFailure m) = Inl (TypeError m)"
| "apiPost_resume B (Responded res) = apiPost_result B res"

section \<open>The scan page\<close>

text \<open>
  The state of \<^verbatim>\<open>scan.js\<close>: its two module variables, the properties of the
  page elements it reads and writes, and what the browser holds for it: the running
  timers, the requests handed to \<^verbatim>\<open>fetch\<close> and the async functions waiting
  for a response, and the cookie jar. An element the script guards against being absent
  (\<^verbatim>\<open>els.scannerMode?.checked\<close>) is an option. \<open>raw_json\<close> is the value whose
  \<^verbatim>\<open>JSON.stringify(_, null, 2)\<close> text the \<^verbatim>\<open>raw\<close> element shows.
\<close>

record delay_input =
  input_value :: string
  input_disabled :: bool

datatype action = Lookup | Save | Refresh

record page =
  lastLookup :: jv
  lookupTimer :: "nat option"
  code_value :: string
  status_display :: string
  status_borderColor :: string
  status_textContent :: string
  preview_display :: string
  cover_display :: string
  cover_src :: string
  title_textContent :: string
  meta_textContent :: string
  provider_textContent :: string
  raw_json :: jv
  btnSave_disabled :: bool
  scannerMode_checked :: "bool option"
  scannerDelay_hidden :: "bool option"
  scannerDelayInput :: "delay_input option"
  btnRefreshAll_present :: bool
  chkDryRun_checked :: "bool option"
  refreshReport_display :: "string option"
  refreshList_innerHTML :: "string option"
  timers :: "(nat \<times> jsnum) list"
  next_timer :: nat
  requests :: "request list"
  in_flight :: "(nat \<times> action) list"
  next_request :: nat
  cookies :: "(string \<times> string) list"

text \<open>
  A statement leaves the page as it is by then, and perhaps an exception. \<open>compute\<close>
  evaluates an expression that may throw, \<open>and_then\<close> runs the next statement,
  \<open>try_catch\<close> is \<^verbatim>\<open>try { ... } catch (e) { ... }\<close>.
\<close>

fun compute :: "page \<Rightarrow> exn + 'a \<Rightarrow> ('a \<Rightarrow> page \<times> exn option) \<Rightarrow> page \<times> exn option" where
  "compute p (Inl e) k = (p, Some e)"
| "compute p (Inr v) k = k v"

fun and_then :: "page \<times> exn option \<Rightarrow> (page \<Rightarrow> page \<times> exn option) \<Rightarrow> page \<times> exn option" where
  "and_then (p, None) k = k p"
| "and_then (p, Some e) k = (p, Some e)"

fun try_catch ::
  "page \<times> exn option \<Rightarrow> (page \<Rightarrow> exn \<Rightarrow> page \<times> exn option) \<Rightarrow> page \<times> exn option" where
  "try_catch (p, None) h = (p, None)"
| "try_catch (p, Some e) h = h p e"

subsection \<open>Helpers\<close>

text \<open>
  \<^verbatim>\<open>s.replaceAll(c, r)\<close> for a pattern of one character, and
  \<^verbatim>\<open>function escapeHtml(s) {
    return String(s ?? "")
        .replaceAll("&", "&amp;")
        .replaceAll("<", "&lt;")
        .replaceAll(">", "&gt;")
        .replaceAll('"', "&quot;")
        .replaceAll("'", "&#039;");
}\<close>
\<close>

definition replaceAll :: "char \<Rightarrow> string \<Rightarrow> string \<Rightarrow> string" where
  "replaceAll c r s = concat (map (\<lambda>x. if x = c then r else [x]) s)"

definition escape_text :: "string \<Rightarrow> string" where
  "escape_text t =
     replaceAll (CHR 0x27) ''&#039;''
       (replaceAll (CHR 0x22) ''&quot;''
         (replaceAll CHR ''>'' ''&gt;''
           (replaceAll CHR ''<'' ''&lt;''
             (replaceAll CHR ''&'' ''&amp;'' t))))"

definition escapeHtml :: "builtins \<Rightarrow> jv \<Rightarrow> exn + string" where
  "escapeHtml B s = bindE (to_str B (nullish_else s (JStr []))) (\<lambda>t. Inr (escape_text t))"

text \<open>The separators \<^verbatim>\<open>" - "\<close> with an em dash and with a middle dot, in UTF-8.\<close>

definition em_dash_sep :: string where
  "em_dash_sep = [CHR 0x20, CHR 0xE2, CHR 0x80, CHR 0x94, CHR 0x20]"

definition middle_dot_sep :: string where
  "middle_dot_sep = [CHR 0x20, CHR 0xC2, CHR 0xB7, CHR 0x20]"

text \<open>The markup of one report entry: the template literal around its three holes.\<close>

definition item_markup :: "string \<Rightarrow> string \<Rightarrow> string \<Rightarrow> string" where
  \<open>item_markup t i s =
     [CHR 0x0A]
     @ ''          <label style="display:flex; gap:.5rem; align-items:flex-start; padding:.4rem 0;">''
     @ [CHR 0x0A]
     @ ''            <input type="checkbox" checked disabled>'' @ [CHR 0x0A]
     @ ''            <div>'' @ [CHR 0x0A]
     @ ''              <div><strong>'' @ t @ ''</strong></div>'' @ [CHR 0x0A]
     @ ''              <div style="opacity:.75; font-size:.9em;">'' @ [CHR 0x0A]
     @ ''                ISBN: <code>'' @ i @ ''</code>'' @ middle_dot_sep @ ''Source: '' @ s
     @ [CHR 0x0A]
     @ ''              </div>'' @ [CHR 0x0A]
     @ ''            </div>'' @ [CHR 0x0A]
     @ ''          </label>'' @ [CHR 0x0A]
     @ ''        ''\<close>

text \<open>
  The callback of \<^verbatim>\<open>items.map\<close>:
  \<^verbatim>\<open>const title = (it.title || "(no title)") + (it.subtitle ? ` - ${it.subtitle}` : "");
const srcs = (it.sources || []).join(" + ") || "unknown";
const isbn = it.isbn || "";\<close>
  and the template with \<^verbatim>\<open>escapeHtml(title)\<close>, \<^verbatim>\<open>escapeHtml(isbn)\<close>,
  \<^verbatim>\<open>escapeHtml(srcs)\<close>.
\<close>

definition item_title :: "builtins \<Rightarrow> jv \<Rightarrow> exn + string" where
  "item_title B it =
     bindE (get B it ''title'') (\<lambda>t.
     bindE (get B it ''subtitle'') (\<lambda>s.
     bindE (if truthy s then bindE (to_str B s) (\<lambda>x. Inr (em_dash_sep @ x)) else Inr []) (\<lambda>sub.
     bindE (to_str B (or_else t (JStr ''(no title)''))) (\<lambda>tt. Inr (tt @ sub)))))"

definition item_sources :: "builtins \<Rightarrow> jv \<Rightarrow> exn + string" where
  "item_sources B it =
     bindE (get B it ''sources'') (\<lambda>sr.
     bindE (join B (or_else sr (JArr [])) '' + '') (\<lambda>j.
     Inr (if j = [] then ''unknown'' else j)))"

definition item_isbn :: "builtins \<Rightarrow> jv \<Rightarrow> exn + jv" where
  "item_isbn B it = bindE (get B it ''isbn'') (\<lambda>i. Inr (or_else i (JStr [])))"

definition report_item :: "builtins \<Rightarrow> jv \<Rightarrow> exn + string" where
  "report_item B it =
     bindE (item_title B it) (\<lambda>title.
     bindE (item_sources B it) (\<lambda>srcs.
     bindE (item_isbn B it) (\<lambda>isbn.
     bindE (escapeHtml B (JStr title)) (\<lambda>et.
     bindE (escapeHtml B isbn) (\<lambda>ei.
     bindE (escapeHtml B (JStr srcs)) (\<lambda>es.
     Inr (item_markup et ei es)))))))"

text \<open>
  \<^verbatim>\<open>v.length\<close> of a value that is not \<^verbatim>\<open>null\<close> (only tested for zero; a
  string is empty in bytes when it is in code units), and the receiver of
  \<^verbatim>\<open>.map\<close>, which only an array can be.
\<close>

fun length_of :: "jv \<Rightarrow> jv" where
  "length_of (JArr xs) = JNum (Fin (of_nat (length xs)))"
| "length_of (JStr s) = JNum (Fin (of_nat (length s)))"
| "length_of v = field v ''length''"

fun elements :: "builtins \<Rightarrow> jv \<Rightarrow> exn + jv list" where
  "elements B (JArr xs) = Inr xs"
| "elements B JUndefined = Inl (raise B NotAnObject)"
| "elements B JNull = Inl (raise B NotAnObject)"
| "elements B v = Inl (raise B NotAFunction)"

text \<open>
  \<^verbatim>\<open>function renderRefreshReport(result) {
    if (!els.refreshReport || !els.refreshList) return;
    const items = result?.updated_items || [];
    if (!items.length) { els.refreshReport.style.display = "none"; return; }
    els.refreshReport.style.display = "block";
    els.refreshList.innerHTML = items.map(it => { ... }).join("");
}\<close>
\<close>

definition report_markup :: "builtins \<Rightarrow> jv \<Rightarrow> exn + string" where
  "report_markup B items =
     bindE (elements B items) (\<lambda>xs.
     bindE (collect (map (report_item B) xs)) (\<lambda>frags. Inr (concat frags)))"

definition renderRefreshReport :: "builtins \<Rightarrow> page \<Rightarrow> jv \<Rightarrow> page \<times> exn option" where
  "renderRefreshReport B p result =
     (if refreshReport_display p = None \<or> refreshList_innerHTML p = None then (p, None)
      else
        (let items = or_else (opt_get result ''updated_items'') (JArr [])
         in if \<not> truthy (length_of items)
            then (p\<lparr>refreshReport_display := Some ''none''\<rparr>, None)
            else
              (let p1 = p\<lparr>refreshReport_display := Some ''block''\<rparr>
               in compute p1 (report_markup B items)
                    (\<lambda>html. (p1\<lparr>refreshList_innerHTML := Some html\<rparr>, None)))))"

definition clearRefreshReport :: "page \<Rightarrow> page" where
  "clearRefreshReport p =
     (if refreshReport_display p = None \<or> refreshList_innerHTML p = None then p
      else p\<lparr>refreshReport_display := Some ''none'', refreshList_innerHTML := Some []\<rparr>)"

subsection \<open>UI\<close>

text \<open>
  A DOM text property takes \<^verbatim>\<open>null\<close> and \<^verbatim>\<open>undefined\<close> as the empty text and
  converts every other value to text.

  \<^verbatim>\<open>function showStatus(msg, isError = false) {
    els.status.style.display = "block";
    els.status.style.borderColor = isError ? "#d33" : "#ddd";
    els.status.textContent = msg;
}\<close>
\<close>

definition dom_text :: "builtins \<Rightarrow> jv \<Rightarrow> exn + string" where
  "dom_text B v = (if nullish v then Inr [] else to_str B v)"

definition showStatus :: "builtins \<Rightarrow> page \<Rightarrow> jv \<Rightarrow> bool \<Rightarrow> page \<times> exn option" where
  "showStatus B p msg isError =
     (let p1 = p\<lparr>status_display := ''block'',
                 status_borderColor := (if isError then ''#d33'' else ''#ddd'')\<rparr>
      in compute p1 (dom_text B msg) (\<lambda>t. (p1\<lparr>status_textContent := t\<rparr>, None)))"

definition clearUI :: "page \<Rightarrow> page" where
  "clearUI p =
     p\<lparr>status_display := ''none'',
       preview_display := ''none'',
       cover_display := ''none'',
       cover_src := [],
       title_textContent := [],
       meta_textContent := [],
       provider_textContent := [],
       raw_json := JObj [],
       btnSave_disabled := True,
       lastLookup := JNull\<rparr>"

text \<open>
  The texts \<^verbatim>\<open>renderLookup\<close> computes:
  \<^verbatim>\<open>`OK: ${result.kind.toUpperCase()} ${result.value}`\<close>,
  \<^verbatim>\<open>const subtitle = book.subtitle ? ` - ${book.subtitle}` : "";
(book.title || "(no title)") + subtitle\<close>,
  \<^verbatim>\<open>const authors = (book.authors || []).join(", ");
[ authors || "(no authors)",
  book.publish_date || "(no date)",
  book.nb_pages ? `${book.nb_pages} pages` : null,
  book.language ? book.language.toUpperCase() : null,
].filter(Boolean).join(" . ")\<close> and
  \<^verbatim>\<open>const srcs = (book.sources || []).map(s => s?.provider).filter(Boolean);
`Source: ${srcs.length ? srcs.join(" + ") : "unknown"}`\<close>.
\<close>

definition ok_line :: "builtins \<Rightarrow> jv \<Rightarrow> exn + string" where
  "ok_line B result =
     bindE (get B result ''kind'') (\<lambda>k.
     bindE (upper B k) (\<lambda>ku.
     bindE (get B result ''value'') (\<lambda>v.
     bindE (to_str B v) (\<lambda>vs. Inr (''OK: '' @ ku @ '' '' @ vs)))))"

definition book_subtitle :: "builtins \<Rightarrow> jv \<Rightarrow> exn + string" where
  "book_subtitle B book =
     bindE (get B book ''subtitle'') (\<lambda>s.
     if truthy s then bindE (to_str B s) (\<lambda>x. Inr (em_dash_sep @ x)) else Inr [])"

definition book_title :: "builtins \<Rightarrow> jv \<Rightarrow> string \<Rightarrow> exn + string" where
  "book_title B book subtitle =
     bindE (get B book ''title'') (\<lambda>t.
     bindE (to_str B (or_else t (JStr ''(no title)''))) (\<lambda>tt. Inr (tt @ subtitle)))"

definition book_authors :: "builtins \<Rightarrow> jv \<Rightarrow> exn + string" where
  "book_authors B book =
     bindE (get B book ''authors'') (\<lambda>a. join B (or_else a (JArr [])) '', '')"

definition book_meta :: "builtins \<Rightarrow> jv \<Rightarrow> string \<Rightarrow> exn + string" where
  "book_meta B book authors =
     bindE (get B book ''publish_date'') (\<lambda>d.
     bindE (get B book ''nb_pages'') (\<lambda>n.
     bindE (if truthy n then bindE (to_str B n) (\<lambda>x. Inr (JStr (x @ '' pages'')))
            else Inr JNull) (\<lambda>pages.
     bindE (get B book ''language'') (\<lambda>l.
     bindE (if truthy l then bindE (upper B l) (\<lambda>x. Inr (JStr x)) else Inr JNull) (\<lambda>lang.
     join B (JArr (filter truthy
                     [or_else (JStr authors) (JStr ''(no authors)''),
                      or_else d (JStr ''(no date)''), pages, lang]))
       middle_dot_sep)))))"

definition book_provider :: "builtins \<Rightarrow> jv \<Rightarrow> exn + string" where
  "book_provider B book =
     bindE (get B book ''sources'') (\<lambda>sr.
     bindE (elements B (or_else sr (JArr []))) (\<lambda>xs.
     (let srcs = filter truthy (map (\<lambda>s. opt_get s ''provider'') xs)
      in bindE (if srcs \<noteq> [] then join B (JArr srcs) '' + '' else Inr ''unknown'')
           (\<lambda>x. Inr (''Source: '' @ x)))))"

text \<open>
  \<^verbatim>\<open>function renderLookup(result) {
    lastLookup = result;
    els.raw.textContent = JSON.stringify(result, null, 2);
    if (result.error) {
        showStatus(result.error, true);
        els.preview.style.display = "none";
        els.btnSave.disabled = true;
        return;
    }
    showStatus(`OK: ...`);
    const book = result.book;
    if (!book) {
        els.preview.style.display = "none";
        els.btnSave.disabled = true;
        return;
    }
    els.preview.style.display = "block";
    ... title, meta, provider ...
    const cover = book.cover_image;
    if (cover) { els.cover.src = cover; els.cover.style.display = "block"; }
    else { els.cover.style.display = "none"; }
    els.btnSave.disabled = false;
}\<close>
\<close>

definition show_cover :: "builtins \<Rightarrow> page \<Rightarrow> jv \<Rightarrow> page \<times> exn option" where
  "show_cover B p cover =
     (if truthy cover
      then compute p (to_str B cover)
             (\<lambda>src. (p\<lparr>cover_src := src, cover_display := ''block''\<rparr>, None))
      else (p\<lparr>cover_display := ''none''\<rparr>, None))"

definition render_book :: "builtins \<Rightarrow> page \<Rightarrow> jv \<Rightarrow> page \<times> exn option" where
  "render_book B p book =
     (let p1 = p\<lparr>preview_display := ''block''\<rparr>
      in compute p1 (book_subtitle B book) (\<lambda>subtitle.
         compute p1 (book_title B book subtitle) (\<lambda>t.
         (let p2 = p1\<lparr>title_textContent := t\<rparr>
          in compute p2 (book_authors B book) (\<lambda>authors.
             compute p2 (book_meta B book authors) (\<lambda>m.
             (let p3 = p2\<lparr>meta_textContent := m\<rparr>
              in compute p3 (book_provider B book) (\<lambda>pr.
                 (let p4 = p3\<lparr>provider_textContent := pr\<rparr>
                  in compute p4 (get B book ''cover_image'') (\<lambda>cover.
                     and_then (show_cover B p4 cover)
                       (\<lambda>p5. (p5\<lparr>btnSave_disabled := False\<rparr>, None))))))))))))"

definition renderLookup :: "builtins \<Rightarrow> page \<Rightarrow> jv \<Rightarrow> page \<times> exn option" where
  "renderLookup B p result =
     (let p1 = p\<lparr>lastLookup := result, raw_json := result\<rparr>
      in compute p1 (get B result ''error'') (\<lambda>err.
         if truthy err then
           and_then (showStatus B p1 err True)
             (\<lambda>p2. (p2\<lparr>preview_display := ''none'', btnSave_disabled := True\<rparr>, None))
         else
           compute p1 (ok_line B result) (\<lambda>line.
           and_then (showStatus B p1 (JStr line) False) (\<lambda>p2.
           compute p2 (get B result ''book'') (\<lambda>book.
           if \<not> truthy book
           then (p2\<lparr>preview_display := ''none'', btnSave_disabled := True\<rparr>, None)
           else render_book B p2 book)))))"

text \<open>
  \<^verbatim>\<open>function updateScannerUI() {
    if (!els.scannerMode || !els.scannerDelay) return;
    els.scannerDelayInput.disabled = !els.scannerMode.checked;
    els.scannerDelay.classList.toggle("hidden", !els.scannerMode.checked);
}\<close>
\<close>

definition updateScannerUI :: "builtins \<Rightarrow> page \<Rightarrow> page \<times> exn option" where
  "updateScannerUI B p =
     (case scannerMode_checked p of
        None \<Rightarrow> (p, None)
      | Some checked \<Rightarrow>
          if scannerDelay_hidden p = None then (p, None)
          else
            (case scannerDelayInput p of
               None \<Rightarrow> (p, Some (raise B NotAnObject))
             | Some d \<Rightarrow>
                 (p\<lparr>scannerDelayInput := Some (d\<lparr>input_disabled := \<not> checked\<rparr>),
                    scannerDelay_hidden := Some (\<not> checked)\<rparr>, None)))"

subsection \<open>API\<close>

text \<open>
  The call of \<^verbatim>\<open>apiPost\<close> inside an async function: the request goes out, and the
  function waits under a fresh number until the browser settles it.
\<close>

definition fetch_post :: "page \<Rightarrow> action \<Rightarrow> string \<Rightarrow> jv \<Rightarrow> page" where
  "fetch_post p a url payload =
     p\<lparr>requests := requests p @ [apiPost_request url payload],
       in_flight := in_flight p @ [(next_request p, a)],
       next_request := Suc (next_request p)\<rparr>"

text \<open>
  \<^verbatim>\<open>async function doLookup() {
    const code = els.code.value.trim();
    if (!code) return;
    clearUI();
    showStatus("Looking up...");
    try {
        const result = await apiPost("/api/scan/lookup", { code });
        renderLookup(result);
    } catch (e) {
        showStatus(e.message || "Lookup failed", true);
        els.raw.textContent = JSON.stringify({ error: String(e) }, null, 2);
    }
}\<close>
  \<open>doLookup\<close> is the part before \<^verbatim>\<open>await\<close>, \<open>doLookup_resume\<close> the part after
  it; the exception of either would be the rejection of the promise.
\<close>

definition lookup_failed :: "builtins \<Rightarrow> page \<Rightarrow> exn \<Rightarrow> page \<times> exn option" where
  "lookup_failed B p e =
     and_then (showStatus B p (or_else (JStr (message e)) (JStr ''Lookup failed'')) True)
       (\<lambda>p1. (p1\<lparr>raw_json := JObj [(''error'', JStr (String_of_error e))]\<rparr>, None))"

definition doLookup :: "builtins \<Rightarrow> page \<Rightarrow> page \<times> exn option" where
  "doLookup B p =
     (let code = trim B (code_value p)
      in if code = [] then (p, None)
         else
           and_then (showStatus B (clearUI p) (JStr ''Looking up...'') False)
             (\<lambda>p1. try_catch
                     (fetch_post p1 Lookup ''/api/scan/lookup'' (JObj [(''code'', JStr code)]),
                      None)
                     (lookup_failed B)))"

definition doLookup_body :: "builtins \<Rightarrow> page \<Rightarrow> fetch_outcome \<Rightarrow> page \<times> exn option" where
  "doLookup_body B p out = compute p (apiPost_resume B out) (renderLookup B p)"

definition doLookup_resume :: "builtins \<Rightarrow> page \<Rightarrow> fetch_outcome \<Rightarrow> page \<times> exn option" where
  "doLookup_resume B p out = try_catch (doLookup_body B p out) (lookup_failed B)"

text \<open>
  \<^verbatim>\<open>async function doSave() {
    if (!lastLookup?.book) return;
    showStatus("Saving...");
    try {
        const result = await apiPost("/api/books", { book: lastLookup.book });
        els.raw.textContent = JSON.stringify(result, null, 2);
        showStatus(`Saved [check mark]  (${result.saved?.id || "no id"})`);
        els.btnSave.disabled = true;
    } catch (e) {
        showStatus(e.message || "Save failed", true);
    }
}\<close>
\<close>

definition save_failed :: "builtins \<Rightarrow> page \<Rightarrow> exn \<Rightarrow> page \<times> exn option" where
  "save_failed B p e = showStatus B p (or_else (JStr (message e)) (JStr ''Save failed'')) True"

definition doSave :: "builtins \<Rightarrow> page \<Rightarrow> page \<times> exn option" where
  "doSave B p =
     (if \<not> truthy (opt_get (lastLookup p) ''book'') then (p, None)
      else
        and_then (showStatus B p (JStr ''Saving...'') False)
          (\<lambda>p1. try_catch
                  (compute p1 (get B (lastLookup p1) ''book'')
                     (\<lambda>b. (fetch_post p1 Save ''/api/books'' (JObj [(''book'', b)]), None)))
                  (save_failed B)))"

definition check_mark :: string where
  "check_mark = [CHR 0xE2, CHR 0x9C, CHR 0x85]"

definition saved_line :: "builtins \<Rightarrow> jv \<Rightarrow> exn + string" where
  "saved_line B result =
     bindE (get B result ''saved'') (\<lambda>sv.
     bindE (to_str B (or_else (opt_get sv ''id'') (JStr ''no id''))) (\<lambda>i.
     Inr (''Saved '' @ check_mark @ ''  ('' @ i @ '')'')))"

definition doSave_body :: "builtins \<Rightarrow> page \<Rightarrow> fetch_outcome \<Rightarrow> page \<times> exn option" where
  "doSave_body B p out =
     compute p (apiPost_resume B out) (\<lambda>result.
       (let p1 = p\<lparr>raw_json := result\<rparr>
        in compute p1 (saved_line B result) (\<lambda>line.
           and_then (showStatus B p1 (JStr line) False)
             (\<lambda>p2. (p2\<lparr>btnSave_disabled := True\<rparr>, None)))))"

definition doSave_resume :: "builtins \<Rightarrow> page \<Rightarrow> fetch_outcome \<Rightarrow> page \<times> exn option" where
  "doSave_resume B p out = try_catch (doSave_body B p out) (save_failed B)"

text \<open>
  The timers of the browser: \<^verbatim>\<open>setTimeout\<close> gives the next handle, a positive
  number, and \<^verbatim>\<open>clearTimeout\<close> drops the timer of a handle. Every timer of this
  page has the same callback, so a timer is its handle and its delay.
  \<^verbatim>\<open>Math.min\<close> and \<^verbatim>\<open>Math.max\<close> give \<^verbatim>\<open>NaN\<close> when an argument is
  \<^verbatim>\<open>NaN\<close>.
\<close>

definition setTimeout :: "page \<Rightarrow> jsnum \<Rightarrow> page" where
  "setTimeout p ms =
     p\<lparr>timers := timers p @ [(next_timer p, ms)], next_timer := Suc (next_timer p)\<rparr>"

definition clearTimeout :: "page \<Rightarrow> nat \<Rightarrow> page" where
  "clearTimeout p h = p\<lparr>timers := filter (\<lambda>t. fst t \<noteq> h) (timers p)\<rparr>"

fun num_le :: "jsnum \<Rightarrow> jsnum \<Rightarrow> bool" where
  "num_le (Fin a) (Fin b) = (a \<le> b)"
| "num_le NegInf b = (b \<noteq> NaN)"
| "num_le a PosInf = (a \<noteq> NaN)"
| "num_le a b = False"

definition Math_min :: "jsnum \<Rightarrow> jsnum \<Rightarrow> jsnum" where
  "Math_min a b = (if a = NaN \<or> b = NaN then NaN else if num_le a b then a else b)"

definition Math_max :: "jsnum \<Rightarrow> jsnum \<Rightarrow> jsnum" where
  "Math_max a b = (if a = NaN \<or> b = NaN then NaN else if num_le a b then b else a)"

text \<open>
  \<^verbatim>\<open>function scheduleLookup() {
    if (!els.scannerMode?.checked) return;
    const ms = Math.max(50, Math.min(2000, Number(els.scannerDelayInput?.value || 250)));
    if (lookupTimer) clearTimeout(lookupTimer);
    lookupTimer = setTimeout(() => {
        lookupTimer = null;
        doLookup();
    }, ms);
}\<close>
\<close>

definition delay_number :: "builtins \<Rightarrow> delay_input option \<Rightarrow> jsnum" where
  "delay_number B d =
     (case d of
        None \<Rightarrow> Fin 250
      | Some i \<Rightarrow> if input_value i \<noteq> [] then toNumber B (input_value i) else Fin 250)"

definition lookup_delay :: "builtins \<Rightarrow> page \<Rightarrow> jsnum" where
  "lookup_delay B p =
     Math_max (Fin 50) (Math_min (Fin 2000) (delay_number B (scannerDelayInput p)))"

definition scheduleLookup :: "builtins \<Rightarrow> page \<Rightarrow> page" where
  "scheduleLookup B p =
     (if scannerMode_checked p \<noteq> Some True then p
      else
        (let ms = lookup_delay B p;
             p1 = (case lookupTimer p of
                     None \<Rightarrow> p
                   | Some h \<Rightarrow> if h \<noteq> 0 then clearTimeout p h else p)
         in (setTimeout p1 ms)\<lparr>lookupTimer := Some (next_timer p1)\<rparr>))"

text \<open>
  \<^verbatim>\<open>async function refreshAllBooks() {
    if (!confirm("Refresh all books from OpenLibrary / Google Books?")) return;
    showStatus("Refreshing all books...");
    try {
        const result = await apiPost("/api/books/refresh", {
            dry_run: els.chkDryRun?.checked ?? false,
            only_missing: false,
        });
        els.raw.textContent = JSON.stringify(result, null, 2);
        renderRefreshReport(result);
        showStatus(`Done: ${result.counts.updated} updated . ` +
                   `${result.counts.skipped} skipped . ` +
                   `${result.counts.failed} failed`);
    } catch (e) {
        showStatus(e.message || "Refresh failed", true);
    }
}\<close>
  The answer to \<^verbatim>\<open>confirm\<close> comes with the click.
\<close>

definition refresh_failed :: "builtins \<Rightarrow> page \<Rightarrow> exn \<Rightarrow> page \<times> exn option" where
  "refresh_failed B p e =
     showStatus B p (or_else (JStr (message e)) (JStr ''Refresh failed'')) True"

definition refreshAllBooks :: "builtins \<Rightarrow> page \<Rightarrow> bool \<Rightarrow> page \<times> exn option" where
  "refreshAllBooks B p confirmed =
     (if \<not> confirmed then (p, None)
      else
        and_then (showStatus B p (JStr ''Refreshing all books...'') False)
          (\<lambda>p1. try_catch
                  (fetch_post p1 Refresh ''/api/books/refresh''
                     (JObj [(''dry_run'',
                             JBool (case chkDryRun_checked p1 of None \<Rightarrow> False | Some b \<Rightarrow> b)),
                            (''only_missing'', JBool False)]),
                   None)
                  (refresh_failed B)))"

definition count_text :: "builtins \<Rightarrow> jv \<Rightarrow> string \<Rightarrow> exn + string" where
  "count_text B result k =
     bindE (get B result ''counts'') (\<lambda>c. bindE (get B c k) (to_str B))"

definition done_line :: "builtins \<Rightarrow> jv \<Rightarrow> exn + string" where
  "done_line B result =
     bindE (count_text B result ''updated'') (\<lambda>u.
     bindE (count_text B result ''skipped'') (\<lambda>s.
     bindE (count_text B result ''failed'') (\<lambda>f.
     Inr (''Done: '' @ u @ '' updated'' @ middle_dot_sep @ s @ '' skipped'' @ middle_dot_sep
          @ f @ '' failed''))))"

definition refreshAllBooks_body ::
  "builtins \<Rightarrow> page \<Rightarrow> fetch_outcome \<Rightarrow> page \<times> exn option" where
  "refreshAllBooks_body B p out =
     compute p (apiPost_resume B out) (\<lambda>result.
       and_then (renderRefreshReport B (p\<lparr>raw_json := result\<rparr>) result) (\<lambda>p2.
       compute p2 (done_line B result) (\<lambda>line. showStatus B p2 (JStr line) False)))"

definition refreshAllBooks_resume ::
  "builtins \<Rightarrow> page \<Rightarrow> fetch_outcome \<Rightarrow> page \<times> exn option" where
  "refreshAllBooks_resume B p out = try_catch (refreshAllBooks_body B p out) (refresh_failed B)"

subsection \<open>Events\<close>

text \<open>
  The cookie jar behind \<^verbatim>\<open>getCookie\<close> and \<^verbatim>\<open>setCookie\<close> of
  \<^verbatim>\<open>cookies.js\<close>: a value is stored encoded and read back decoded, so the jar keeps
  it as it is, the latest binding of a name first.
\<close>

definition getCookie :: "page \<Rightarrow> string \<Rightarrow> string option" where
  "getCookie p name = map_of (cookies p) name"

definition setCookie :: "page \<Rightarrow> string \<Rightarrow> string \<Rightarrow> page" where
  "setCookie p name v = p\<lparr>cookies := (name, v) # cookies p\<rparr>"

text \<open>
  What happens to the page: the listeners the script registers, a timer of the browser
  running out, and a request being settled. \<open>Input v\<close> is the user making \<open>v\<close> the text
  of the code field; \<open>ClickRefreshAll c\<close> carries the answer to the confirmation;
  \<open>ToggleDryRun\<close> has no listener.
\<close>

datatype event =
    Load
  | ClickLookup
  | ClickSave
  | ClickClear
  | KeyDown string
  | Input string
  | ChangeScannerMode bool
  | ChangeScannerDelay string
  | ToggleDryRun bool
  | ClickRefreshAll bool
  | TimerFires nat
  | Settles nat fetch_outcome

text \<open>\<^verbatim>\<open>if (lookupTimer) { clearTimeout(lookupTimer); lookupTimer = null; }\<close>\<close>

definition cancel_timer :: "page \<Rightarrow> page" where
  "cancel_timer p =
     (case lookupTimer p of
        None \<Rightarrow> p
      | Some h \<Rightarrow> if h \<noteq> 0 then (clearTimeout p h)\<lparr>lookupTimer := None\<rparr> else p)"

text \<open>The listener of \<^verbatim>\<open>load\<close>: the preferences come back from the cookies.\<close>

definition restore_mode :: "page \<Rightarrow> page" where
  "restore_mode p =
     (case getCookie p ''scanner_mode'' of
        None \<Rightarrow> p
      | Some m \<Rightarrow>
          if scannerMode_checked p \<noteq> None then p\<lparr>scannerMode_checked := Some (m = ''1'')\<rparr>
          else p)"

definition restore_delay :: "page \<Rightarrow> page" where
  "restore_delay p =
     (case getCookie p ''scanner_delay'' of
        None \<Rightarrow> p
      | Some d \<Rightarrow>
          if d \<noteq> [] then
            (case scannerDelayInput p of
               None \<Rightarrow> p
             | Some i \<Rightarrow> p\<lparr>scannerDelayInput := Some (i\<lparr>input_value := d\<rparr>)\<rparr>)
          else p)"

definition settle :: "builtins \<Rightarrow> page \<Rightarrow> nat \<Rightarrow> fetch_outcome \<Rightarrow> page \<times> exn option" where
  "settle B p r out =
     (case map_of (in_flight p) r of
        None \<Rightarrow> (p, None)
      | Some a \<Rightarrow>
          (let p1 = p\<lparr>in_flight := filter (\<lambda>x. fst x \<noteq> r) (in_flight p)\<rparr>
           in case a of
                Lookup \<Rightarrow> doLookup_resume B p1 out
              | Save \<Rightarrow> doSave_resume B p1 out
              | Refresh \<Rightarrow> refreshAllBooks_resume B p1 out))"

text \<open>
  One event, with the exception that leaves its listener, if any: the browser reports
  it and the page goes on from the state reached.
\<close>

fun handle :: "builtins \<Rightarrow> page \<Rightarrow> event \<Rightarrow> page \<times> exn option" where
  "handle B p Load = updateScannerUI B (restore_delay (restore_mode (clearUI p)))"
| "handle B p ClickLookup = doLookup B p"
| "handle B p ClickSave = (let r = doSave B p in ((fst r)\<lparr>code_value := []\<rparr>, snd r))"
| "handle B p ClickClear = (cancel_timer ((clearUI p)\<lparr>code_value := []\<rparr>), None)"
| "handle B p (KeyDown k) = (if k = ''Enter'' then doLookup B (cancel_timer p) else (p, None))"
| "handle B p (Input v) = (scheduleLookup B (p\<lparr>code_value := v\<rparr>), None)"
| "handle B p (ChangeScannerMode b) =
     (if scannerMode_checked p = None then (p, None)
      else updateScannerUI B
             (setCookie (p\<lparr>scannerMode_checked := Some b\<rparr>) ''scanner_mode''
                (if b then ''1'' else ''0'')))"
| "handle B p (ChangeScannerDelay v) =
     (case scannerDelayInput p of
        None \<Rightarrow> (p, None)
      | Some i \<Rightarrow>
          (setCookie (p\<lparr>scannerDelayInput := Some (i\<lparr>input_value := v\<rparr>)\<rparr>) ''scanner_delay'' v,
           None))"
| "handle B p (ToggleDryRun b) =
     (if chkDryRun_checked p = None then (p, None) else (p\<lparr>chkDryRun_checked := Some b\<rparr>, None))"
| "handle B p (ClickRefreshAll c) =
     (if btnRefreshAll_present p then refreshAllBooks B p c else (p, None))"
| "handle B p (TimerFires h) =
     (if h \<in> set (map fst (timers p))
      then doLookup B ((clearTimeout p h)\<lparr>lookupTimer := None\<rparr>)
      else (p, None))"
| "handle B p (Settles r out) = settle B p r out"

definition step :: "builtins \<Rightarrow> page \<Rightarrow> event \<Rightarrow> page" where
  "step B p ev = fst (handle B p ev)"

definition run :: "builtins \<Rightarrow> page \<Rightarrow> event list \<Rightarrow> page" where
  "run B p evs = foldl (step B) p evs"

text \<open>
  The page when the script has been evaluated: \<^verbatim>\<open>let lastLookup = null;
let lookupTimer = null;\<close>, no timer set and no request made. What the elements hold
  comes from the document.
\<close>

definition started :: "page \<Rightarrow> bool" where
  "started p \<longleftrightarrow>
     lastLookup p = JNull \<and> lookupTimer p = None \<and> timers p = [] \<and> 0 < next_timer p
     \<and> requests p = [] \<and> in_flight p = []"

section \<open>The escaping the specification describes\<close>

text \<open>
  What \<^verbatim>\<open>escapeHtml\<close> is specified to return, written from the words of the
  specification and not from the code: every \<^verbatim>\<open>&\<close>, \<^verbatim>\<open><\<close>, \<^verbatim>\<open>>\<close>,
  double quote and single quote is replaced by its entity, every other character stays.
\<close>

definition spec_entity :: "char \<Rightarrow> string" where
  "spec_entity c =
     (if c = CHR ''&'' then ''&amp;''
      else if c = CHR ''<'' then ''&lt;''
      else if c = CHR ''>'' then ''&gt;''
      else if c = CHR 0x22 then ''&quot;''
      else if c = CHR 0x27 then ''&#039;''
      else [c])"

definition spec_escape :: "string \<Rightarrow> string" where
  "spec_escape s = concat (map spec_entity s)"

section \<open>The data model of the specification\<close>

text \<open>
  The shapes the specification gives the lookup result: \<^verbatim>\<open>{ kind, value, book?, error? }\<close>
  with the book \<^verbatim>\<open>{ title, subtitle?, authors: [string], publish_date?, nb_pages?,
  language?, cover_image?, sources: [{provider, ...}] }\<close>. A field that is text, a number or
  a boolean, or is left out, is scalar; a result that carries an error needs nothing else.
\<close>

fun is_scalar :: "jv \<Rightarrow> bool" where
  "is_scalar (JArr xs) = False"
| "is_scalar (JObj kvs) = False"
| "is_scalar v = True"

fun is_text :: "jv \<Rightarrow> bool" where
  "is_text (JStr s) = True"
| "is_text v = False"

fun is_text_list :: "jv \<Rightarrow> bool" where
  "is_text_list (JArr xs) = list_all is_text xs"
| "is_text_list v = False"

fun is_source :: "jv \<Rightarrow> bool" where
  "is_source (JObj kvs) = (nullish (field (JObj kvs) ''provider'')
                           \<or> is_text (field (JObj kvs) ''provider''))"
| "is_source v = False"

fun is_source_list :: "jv \<Rightarrow> bool" where
  "is_source_list (JArr xs) = list_all is_source xs"
| "is_source_list v = False"

fun is_object :: "jv \<Rightarrow> bool" where
  "is_object (JObj kvs) = True"
| "is_object v = False"

definition is_Book :: "jv \<Rightarrow> bool" where
  "is_Book b \<longleftrightarrow>
     is_object b
     \<and> is_scalar (field b ''title'') \<and> is_scalar (field b ''subtitle'')
     \<and> (nullish (field b ''authors'') \<or> is_text_list (field b ''authors''))
     \<and> is_scalar (field b ''publish_date'') \<and> is_scalar (field b ''nb_pages'')
     \<and> (nullish (field b ''language'') \<or> is_text (field b ''language''))
     \<and> (nullish (field b ''cover_image'') \<or> is_text (field b ''cover_image''))
     \<and> (nullish (field b ''sources'') \<or> is_source_list (field b ''sources''))"

definition is_LookupResult :: "jv \<Rightarrow> bool" where
  "is_LookupResult r \<longleftrightarrow>
     is_object r
     \<and> (if truthy (field r ''error'') then is_scalar (field r ''error'')
        else is_text (field r ''kind'') \<and> is_scalar (field r ''value'')
             \<and> (nullish (field r ''book'') \<or> is_Book (field r ''book'')))"

section \<open>Observations on the page\<close>

text \<open>
  What showing a status or rendering a result never touches: the timer variable and the
  timers, the requests, the code field and the scanner settings.
\<close>

definition frame ::
  "page \<Rightarrow> (nat option \<times> (nat \<times> jsnum) list \<times> nat) \<times> (request list \<times> (nat \<times> action) list \<times> nat)
          \<times> (string \<times> bool option \<times> delay_input option)" where
  "frame p =
     ((lookupTimer p, timers p, next_timer p),
      (requests p, in_flight p, next_request p),
      (code_value p, scannerMode_checked p, scannerDelayInput p))"

text \<open>
  The timer variable and the browser agree: no handle and no timer, or the handle of the
  one timer there is.
\<close>

definition timer_inv :: "page \<Rightarrow> bool" where
  "timer_inv p \<longleftrightarrow>
     0 < next_timer p
     \<and> (case lookupTimer p of
          None \<Rightarrow> timers p = []
        | Some h \<Rightarrow> 0 < h \<and> h < next_timer p \<and> map fst (timers p) = [h])"

text \<open>
  The event settles a lookup whose response is a result with a book and no error, and
  whether a run of events has such an event.
\<close>

definition carries_book :: "builtins \<Rightarrow> fetch_outcome \<Rightarrow> bool" where
  "carries_book B out =
     (case apiPost_resume B out of
        Inl e \<Rightarrow> False
      | Inr result \<Rightarrow> truthy (field result ''book'') \<and> \<not> truthy (field result ''error''))"

fun lookup_with_book :: "builtins \<Rightarrow> page \<Rightarrow> event \<Rightarrow> bool" where
  "lookup_with_book B p (Settles r out) =
     (map_of (in_flight p) r = Some Lookup \<and> carries_book B out)"
| "lookup_with_book B p ev = False"

fun no_lookup_with_book :: "builtins \<Rightarrow> page \<Rightarrow> event list \<Rightarrow> bool" where
  "no_lookup_with_book B p [] = True"
| "no_lookup_with_book B p (ev # evs) =
     (\<not> lookup_with_book B p ev \<and> no_lookup_with_book B (step B p ev) evs)"

section \<open>A reference engine for closed examples\<close>

text \<open>
  The closed examples below need one concrete engine. This one agrees with the built-ins
  on what the examples feed it: ASCII text, numerals in decimal notation, and the sample
  documents listed in \<open>sample_documents\<close>. It trims ASCII white space only, changes the
  case of ASCII letters only, prints whole numbers only, and takes every text outside
  the table for invalid JSON.
\<close>

definition is_space :: "char \<Rightarrow> bool" where
  "is_space c = (c \<in> set [CHR 0x09, CHR 0x0A, CHR 0x0B, CHR 0x0C, CHR 0x0D, CHR 0x20])"

definition ascii_trim :: "string \<Rightarrow> string" where
  "ascii_trim s = rev (dropWhile is_space (rev (dropWhile is_space s)))"

definition ascii_upper_char :: "char \<Rightarrow> char" where
  "ascii_upper_char c =
     (case map_of (zip ''abcdefghijklmnopqrstuvwxyz'' ''ABCDEFGHIJKLMNOPQRSTUVWXYZ'') c of
        Some u \<Rightarrow> u
      | None \<Rightarrow> c)"

definition is_digit :: "char \<Rightarrow> bool" where
  "is_digit c = (c \<in> set ''0123456789'')"

definition digit_value :: "char \<Rightarrow> nat" where
  "digit_value c = (case map_of (zip ''0123456789'' [0, 1, 2, 3, 4, 5, 6, 7, 8, 9]) c of
                      Some d \<Rightarrow> d
                    | None \<Rightarrow> 0)"

definition digits_value :: "string \<Rightarrow> nat" where
  "digits_value ds = foldl (\<lambda>a c. 10 * a + digit_value c) 0 ds"

definition digit_char :: "nat \<Rightarrow> char" where
  "digit_char d = ''0123456789'' ! d"

fun decimal :: "nat \<Rightarrow> string" where
  "decimal n =
     (if n < 10 then [digit_char n] else decimal (n div 10) @ [digit_char (n mod 10)])"

fun print_number :: "jsnum \<Rightarrow> string" where
  "print_number NaN = ''NaN''"
| "print_number PosInf = ''Infinity''"
| "print_number NegInf = ''-Infinity''"
| "print_number (Fin q) =
     (if q < 0 then ''-'' else [])
     @ decimal (nat (\<bar>fst (quotient_of q)\<bar> div snd (quotient_of q)))"

text \<open>The exponent part of a numeral, or nothing left.\<close>

definition exponent_of :: "string \<Rightarrow> int option" where
  "exponent_of r =
     (if r = [] then Some 0
      else if hd r = CHR ''e'' \<or> hd r = CHR ''E'' then
        (let t = tl r;
             neg = (t \<noteq> [] \<and> hd t = CHR ''-'');
             ds = (if t \<noteq> [] \<and> (hd t = CHR ''+'' \<or> hd t = CHR ''-'') then tl t else t)
         in if ds \<noteq> [] \<and> list_all is_digit ds
            then Some (if neg then - int (digits_value ds) else int (digits_value ds))
            else None)
      else None)"

definition scale10 :: "rat \<Rightarrow> int \<Rightarrow> rat" where
  "scale10 q e = (if 0 \<le> e then q * 10 ^ nat e else q / 10 ^ nat (- e))"

definition unsigned_decimal :: "string \<Rightarrow> jsnum" where
  "unsigned_decimal s =
     (if s = ''Infinity'' then PosInf
      else
        (let ip = takeWhile is_digit s;
             r = dropWhile is_digit s;
             dot = (r \<noteq> [] \<and> hd r = CHR ''.'');
             fp = (if dot then takeWhile is_digit (tl r) else []);
             r' = (if dot then dropWhile is_digit (tl r) else r)
         in if ip = [] \<and> fp = [] then NaN
            else (case exponent_of r' of
                    None \<Rightarrow> NaN
                  | Some e \<Rightarrow>
                      Fin (scale10 (of_nat (digits_value ip)
                                    + of_nat (digits_value fp) / 10 ^ length fp) e))))"

fun negate :: "jsnum \<Rightarrow> jsnum" where
  "negate NaN = NaN"
| "negate PosInf = NegInf"
| "negate NegInf = PosInf"
| "negate (Fin q) = Fin (- q)"

definition decimal_number :: "string \<Rightarrow> jsnum" where
  "decimal_number t =
     (let s = ascii_trim t
      in if s = [] then Fin 0
         else if hd s = CHR ''+'' then unsigned_decimal (tl s)
         else if hd s = CHR ''-'' then negate (unsigned_decimal (tl s))
         else unsigned_decimal s)"

fun fault_text :: "fault \<Rightarrow> string" where
  "fault_text NotAnObject = ''Cannot read properties of null or undefined''"
| "fault_text NotAFunction = ''is not a function''"
| "fault_text NotPrimitive = ''Cannot convert object to primitive value''"

definition not_found_text :: string where
  \<open>not_found_text = ''{"error":"Not found"}''\<close>

definition not_found_doc :: jv where
  "not_found_doc = JObj [(''error'', JStr ''Not found'')]"

definition clean_code_text :: string where
  \<open>clean_code_text =
     ''{"kind":"isbn","value":"9780132350884","book":{"title":"Clean Code","authors":["Robert C. Martin"],"sources":[{"provider":"openlibrary"}]}}''\<close>

definition clean_code_book :: jv where
  "clean_code_book =
     JObj [(''title'', JStr ''Clean Code''),
           (''authors'', JArr [JStr ''Robert C. Martin'']),
           (''sources'', JArr [JObj [(''provider'', JStr ''openlibrary'')]])]"

definition clean_code_doc :: jv where
  "clean_code_doc =
     JObj [(''kind'', JStr ''isbn''), (''value'', JStr ''9780132350884''),
           (''book'', clean_code_book)]"

definition saved_text :: string where
  \<open>saved_text = ''{"saved":{"id":7}}''\<close>

definition saved_doc :: jv where
  "saved_doc = JObj [(''saved'', JObj [(''id'', JNum (Fin 7))])]"

definition refresh_text :: string where
  \<open>refresh_text =
     ''{"counts":{"updated":2,"skipped":1,"failed":0},"updated_items":[{"title":"A"},{"title":"B"}]}''\<close>

definition refresh_doc :: jv where
  "refresh_doc =
     JObj [(''counts'', JObj [(''updated'', JNum (Fin 2)), (''skipped'', JNum (Fin 1)),
                              (''failed'', JNum (Fin 0))]),
           (''updated_items'', JArr [JObj [(''title'', JStr ''A'')],
                                     JObj [(''title'', JStr ''B'')]])]"

definition empty_error_text :: string where
  \<open>empty_error_text = ''{"error":""}''\<close>

definition empty_error_doc :: jv where
  "empty_error_doc = JObj [(''error'', JStr [])]"

definition sample_documents :: "(string \<times> jv) list" where
  "sample_documents =
     [(not_found_text, not_found_doc), (clean_code_text, clean_code_doc),
      (saved_text, saved_doc), (refresh_text, refresh_doc), (''null'', JNull),
      (empty_error_text, empty_error_doc)]"

definition reference :: builtins where
  "reference =
     \<lparr> JSON_parse = map_of sample_documents,
       trim = ascii_trim,
       toUpperCase = map ascii_upper_char,
       toNumber = decimal_number,
       numberToString = print_number,
       faultMessage = fault_text \<rparr>"

text \<open>A page for the examples: scanner mode on, the delay field at 250.\<close>

definition sample_page :: page where
  "sample_page =
     \<lparr> lastLookup = JNull, lookupTimer = None, code_value = [],
       status_display = ''none'', status_borderColor = [], status_textContent = [],
       preview_display = ''none'', cover_display = ''none'', cover_src = [],
       title_textContent = [], meta_textContent = [], provider_textContent = [],
       raw_json = JObj [], btnSave_disabled = True,
       scannerMode_checked = Some True, scannerDelay_hidden = Some False,
       scannerDelayInput = Some \<lparr> input_value = ''250'', input_disabled = False \<rparr>,
       btnRefreshAll_present = True, chkDryRun_checked = Some False,
       refreshReport_display = Some ''none'', refreshList_innerHTML = Some [],
       timers = [], next_timer = 1, requests = [], in_flight = [], next_request = 1,
       cookies = [] \<rparr>"

text \<open>A refresh result whose item carries markup in its title, ISBN and sources.\<close>

definition markup_item :: jv where
  \<open>markup_item =
     JObj [(''title'', JStr ''<b>A&B</b>''), (''isbn'', JStr ''1"2''),
           (''sources'', JArr [JStr ''<x>'', JStr ''y''])]\<close>

definition markup_doc :: jv where
  "markup_doc =
     JObj [(''counts'', JObj [(''updated'', JNum (Fin 1)), (''skipped'', JNum (Fin 0)),
                              (''failed'', JNum (Fin 0))]),
           (''updated_items'', JArr [markup_item])]"

text \<open>
  Runs of the sample page: a code typed and the lookup button clicked twice, then the
  first response arriving with a book; and, with scanner mode off, a single lookup and
  its answer with the book.
\<close>

definition ok_response :: "string \<Rightarrow> fetch_outcome" where
  "ok_response t = Responded \<lparr>ok = True, status = 200, text_body = t\<rparr>"

definition two_lookups :: page where
  "two_lookups = run reference sample_page [Input ''9780132350884'', ClickLookup, ClickLookup]"

definition first_shown :: page where
  "first_shown = step reference two_lookups (Settles 1 (ok_response clean_code_text))"

definition lookup_pending :: page where
  "lookup_pending =
     run reference (sample_page\<lparr>scannerMode_checked := Some False\<rparr>)
       [Input ''9780132350884'', ClickLookup]"

definition book_shown :: page where
  "book_shown = step reference lookup_pending (Settles 1 (ok_response clean_code_text))"

text \<open>The book on the page, the save button clicked, and the save answered.\<close>

definition save_pending :: page where
  "save_pending = step reference book_shown ClickSave"

definition saved :: page where
  "saved = step reference save_pending (Settles 2 (ok_response saved_text))"

text \<open>
  The sample page after a code was typed in scanner mode, its timer still running; and
  after scanner mode was then switched off.
\<close>

definition typed :: page where
  "typed = step reference sample_page (Input ''9780132350884'')"

definition switched_off :: page where
  "switched_off = step reference typed (ChangeScannerMode False)"

section \<open>Statements and their frames\<close>

lemma compute_split: "compute p r k = (case r of Inl e \<Rightarrow> (p, Some e) | Inr v \<Rightarrow> k v)"
  by (cases r) simp_all

lemma and_then_split: "and_then r k = (case snd r of None \<Rightarrow> k (fst r) | Some e \<Rightarrow> r)"
  by (cases r; cases "snd r") auto

lemma try_catch_split: "try_catch r h = (case snd r of None \<Rightarrow> r | Some e \<Rightarrow> h (fst r) e)"
  by (cases r; cases "snd r") auto

lemmas statement_splits = compute_split and_then_split try_catch_split

lemma showStatus_text:
  "showStatus B p (JStr s) e =
     (p\<lparr>status_display := ''block'',
        status_borderColor := (if e then ''#d33'' else ''#ddd''),
        status_textContent := s\<rparr>, None)"
  by (simp add: showStatus_def dom_text_def Let_def)

lemma showStatus_frame: "frame (fst (showStatus B p m e)) = frame p"
  by (simp add: showStatus_def Let_def frame_def compute_split split: sum.splits)

lemma showStatus_save: "btnSave_disabled (fst (showStatus B p m e)) = btnSave_disabled p"
  by (simp add: showStatus_def Let_def compute_split split: sum.splits)

lemma showStatus_preview: "preview_display (fst (showStatus B p m e)) = preview_display p"
  by (simp add: showStatus_def Let_def compute_split split: sum.splits)

lemma clearUI_frame: "frame (clearUI p) = frame p"
  by (simp add: clearUI_def frame_def)

lemma show_cover_frame: "frame (fst (show_cover B p c)) = frame p"
  by (simp add: show_cover_def frame_def compute_split split: sum.splits)

lemma show_cover_save: "btnSave_disabled (fst (show_cover B p c)) = btnSave_disabled p"
  by (simp add: show_cover_def compute_split split: sum.splits)

lemma show_cover_preview: "preview_display (fst (show_cover B p c)) = preview_display p"
  by (simp add: show_cover_def compute_split split: sum.splits)

lemma render_book_frame: "frame (fst (render_book B p b)) = frame p"
  using show_cover_frame
  by (simp add: render_book_def Let_def frame_def statement_splits
      split: sum.splits option.splits)

lemma render_book_save:
  "btnSave_disabled (fst (render_book B p b))
     = (if snd (render_book B p b) = None then False else btnSave_disabled p)"
  by (simp add: render_book_def Let_def statement_splits show_cover_save
      split: sum.splits option.splits)

lemma render_book_preview: "preview_display (fst (render_book B p b)) = ''block''"
  by (simp add: render_book_def Let_def statement_splits show_cover_preview
      split: sum.splits option.splits)

lemma renderLookup_frame: "frame (fst (renderLookup B p r)) = frame p"
  using render_book_frame showStatus_frame
  by (simp add: renderLookup_def Let_def frame_def statement_splits
      split: sum.splits option.splits)

lemma renderRefreshReport_frame: "frame (fst (renderRefreshReport B p r)) = frame p"
  by (simp add: renderRefreshReport_def Let_def frame_def statement_splits split: sum.splits)

lemma renderRefreshReport_save:
  "btnSave_disabled (fst (renderRefreshReport B p r)) = btnSave_disabled p"
  by (simp add: renderRefreshReport_def Let_def statement_splits split: sum.splits)

section \<open>Properties of the request client\<close>

lemma get_not_nullish: "\<not> nullish v \<Longrightarrow> get B v k = Inr (field v k)"
  by (simp add: get_def)

lemma truthy_not_nullish: "truthy v \<Longrightarrow> \<not> nullish v"
  by (cases v) simp_all

lemma to_str_text: "to_str B (JStr s) = Inr s"
  by simp

lemma reference_parse_not_found: "JSON_parse reference not_found_text = Some not_found_doc"
  by (simp add: reference_def sample_documents_def not_found_text_def)

lemma reference_parse_markup: "JSON_parse reference ''<html>'' = None"
  by (simp add: reference_def sample_documents_def not_found_text_def clean_code_text_def
      saved_text_def refresh_text_def empty_error_text_def)

lemma reference_status_500: "numberToString reference (Fin 500) = ''500''"
  by code_simp

lemma reference_status_404: "numberToString reference (Fin 404) = ''404''"
  by code_simp

lemma not_found_text_not_empty: "not_found_text \<noteq> []"
  by (simp add: not_found_text_def)

lemma reference_parse_empty_error:
  "JSON_parse reference empty_error_text = Some empty_error_doc"
  by (simp add: reference_def sample_documents_def not_found_text_def clean_code_text_def
      saved_text_def refresh_text_def empty_error_text_def)

lemma empty_error_text_not_empty: "empty_error_text \<noteq> []"
  by (simp add: empty_error_text_def)

text \<open>
  C3, as the code has it. A response whose status is not successful makes
  \<^verbatim>\<open>apiPost\<close> raise. The test is \<^verbatim>\<open>data && data.error\<close>: when the
  \<^verbatim>\<open>error\<close> field of the parsed body is truthy, the error raised carries that
  field, as text, as its message; when it is not (the field is missing, or is there and
  is empty, \<^verbatim>\<open>null\<close>, \<^verbatim>\<open>false\<close> or 0), the message is \<^verbatim>\<open>HTTP\<close>, a
  space and the status as the engine prints the number. On a successful status the
  parsed body is returned and nothing is raised.
\<close>

theorem apiPost_status_contract:
  "(let data = parse_body B (text_body res);
        truthy_error = (truthy data \<and> truthy (field data ''error''))
    in (\<not> ok res \<longrightarrow>
          (\<exists>e. apiPost_resume B (Responded res) = Inl e)
          \<and> (\<forall>m. truthy_error \<and> field data ''error'' = JStr m \<longrightarrow>
                 apiPost_resume B (Responded res) = Inl (Error m))
          \<and> (\<forall>m. truthy_error \<and> to_str B (field data ''error'') = Inr m \<longrightarrow>
                 apiPost_resume B (Responded res) = Inl (Error m))
          \<and> (\<not> truthy_error \<longrightarrow>
                 apiPost_resume B (Responded res)
                   = Inl (Error (''HTTP '' @ numberToString B (Fin (of_nat (status res)))))))
       \<and> (ok res \<longrightarrow> apiPost_resume B (Responded res) = Inr data))"
proof -
  define data where "data = parse_body B (text_body res)"
  define err where "err = field data ''error''"
  have cond: "truthy (if truthy data then field data ''error'' else data)
              \<longleftrightarrow> truthy data \<and> truthy err"
    by (simp add: err_def)
  have failing: "\<not> ok res \<Longrightarrow>
      apiPost_resume B (Responded res) =
        (if truthy data \<and> truthy err
         then bindE (to_str B err) (\<lambda>msg. Inl (Error msg))
         else Inl (Error (''HTTP '' @ numberToString B (Fin (of_nat (status res))))))"
    using cond by (simp add: apiPost_result_def http_message_def data_def err_def Let_def)
  have raised: "\<not> ok res \<Longrightarrow> \<exists>e. apiPost_resume B (Responded res) = Inl e"
    using failing by (cases "to_str B err") auto
  have succeeding: "ok res \<Longrightarrow> apiPost_resume B (Responded res) = Inr data"
    by (simp add: apiPost_result_def data_def Let_def)
  show ?thesis
    unfolding Let_def data_def [symmetric] err_def [symmetric]
    using failing raised succeeding by auto
qed

theorem apiPost_status_contract_witness:
  "apiPost_resume reference
     (Responded \<lparr>ok = False, status = 404, text_body = not_found_text\<rparr>)
     = Inl (Error ''Not found'')
   \<and> apiPost_resume reference (Responded \<lparr>ok = False, status = 500, text_body = ''<html>''\<rparr>)
     = Inl (Error ''Non-JSON response'')
   \<and> apiPost_resume reference (Responded \<lparr>ok = False, status = 500, text_body = []\<rparr>)
     = Inl (Error ''HTTP 500'')
   \<and> apiPost_resume reference (Responded \<lparr>ok = False, status = 404, text_body = []\<rparr>)
     = Inl (Error ''HTTP 404'')
   \<and> apiPost_resume reference (Responded \<lparr>ok = True, status = 200, text_body = not_found_text\<rparr>)
     = Inr not_found_doc"
proof -
  have parsed: "parse_body reference not_found_text = not_found_doc"
    by (simp add: parse_body_def reference_parse_not_found not_found_text_not_empty)
  have markup: "parse_body reference ''<html>''
                = JObj [(''error'', JStr ''Non-JSON response''), (''raw'', JStr ''<html>'')]"
    by (simp add: parse_body_def reference_parse_markup)
  have empty: "parse_body reference [] = JNull"
    by (simp add: parse_body_def)
  have a: "apiPost_resume reference
             (Responded \<lparr>ok = False, status = 404, text_body = not_found_text\<rparr>)
           = Inl (Error ''Not found'')"
    using apiPost_status_contract
      [of reference "\<lparr>ok = False, status = 404, text_body = not_found_text\<rparr>"]
    by (simp add: parsed not_found_doc_def Let_def)
  have b: "apiPost_resume reference
             (Responded \<lparr>ok = False, status = 500, text_body = ''<html>''\<rparr>)
           = Inl (Error ''Non-JSON response'')"
    using apiPost_status_contract
      [of reference "\<lparr>ok = False, status = 500, text_body = ''<html>''\<rparr>"]
    by (simp add: markup Let_def)
  have c: "apiPost_resume reference (Responded \<lparr>ok = False, status = 500, text_body = []\<rparr>)
           = Inl (Error ''HTTP 500'')"
    using apiPost_status_contract [of reference "\<lparr>ok = False, status = 500, text_body = []\<rparr>"]
    by (simp add: empty Let_def http_message_def reference_status_500)
  have d: "apiPost_resume reference
             (Responded \<lparr>ok = True, status = 200, text_body = not_found_text\<rparr>)
           = Inr not_found_doc"
    using apiPost_status_contract
      [of reference "\<lparr>ok = True, status = 200, text_body = not_found_text\<rparr>"]
    by (simp add: parsed Let_def)
  have e: "apiPost_resume reference (Responded \<lparr>ok = False, status = 404, text_body = []\<rparr>)
           = Inl (Error ''HTTP 404'')"
    using apiPost_status_contract [of reference "\<lparr>ok = False, status = 404, text_body = []\<rparr>"]
    by (simp add: empty Let_def reference_status_404)
  show ?thesis using a b c d e by simp
qed

text \<open>
  C3 as written fails on a body whose \<^verbatim>\<open>error\<close> field is there and empty: the
  response has status 500 and the body \<^verbatim>\<open>{"error":""}\<close>, the parsed body has the
  field, and the message is \<^verbatim>\<open>HTTP 500\<close>, not the field.
\<close>

theorem apiPost_empty_error_field:
  "parse_body reference empty_error_text = JObj [(''error'', JStr [])]
   \<and> map_of [(''error'', JStr [])] ''error'' = Some (JStr [])
   \<and> apiPost_resume reference
         (Responded \<lparr>ok = False, status = 500, text_body = empty_error_text\<rparr>)
       = Inl (Error ''HTTP 500'')
   \<and> apiPost_resume reference
         (Responded \<lparr>ok = False, status = 500, text_body = empty_error_text\<rparr>)
       \<noteq> Inl (Error [])"
proof -
  have parsed: "parse_body reference empty_error_text = JObj [(''error'', JStr [])]"
    by (simp add: parse_body_def reference_parse_empty_error empty_error_text_not_empty
        empty_error_doc_def)
  then have "apiPost_resume reference
         (Responded \<lparr>ok = False, status = 500, text_body = empty_error_text\<rparr>)
       = Inl (Error ''HTTP 500'')"
    by (simp add: apiPost_result_def http_message_def reference_status_500)
  with parsed show ?thesis by simp
qed

text \<open>
  C4. An empty body is \<^verbatim>\<open>null\<close>: \<^verbatim>\<open>JSON.parse\<close> is not called on it, a
  successful status returns \<^verbatim>\<open>null\<close>, and a failing one raises the
  \<^verbatim>\<open>HTTP\<close> error, not a parse exception. A body that is not empty and not valid
  JSON becomes the object \<^verbatim>\<open>{ error: "Non-JSON response", raw: text }\<close>: it is
  returned on a successful status and gives the message of the error on a failing one.
\<close>

theorem apiPost_body_contract:
  "(text_body res = [] \<longrightarrow>
      parse_body B (text_body res) = JNull
      \<and> (ok res \<longrightarrow> apiPost_resume B (Responded res) = Inr JNull)
      \<and> (\<not> ok res \<longrightarrow> apiPost_resume B (Responded res) = Inl (Error (http_message B res))))
   \<and> (text_body res \<noteq> [] \<and> JSON_parse B (text_body res) = None \<longrightarrow>
        parse_body B (text_body res)
          = JObj [(''error'', JStr ''Non-JSON response''), (''raw'', JStr (text_body res))]
        \<and> (ok res \<longrightarrow>
              apiPost_resume B (Responded res)
                = Inr (JObj [(''error'', JStr ''Non-JSON response''),
                             (''raw'', JStr (text_body res))]))
        \<and> (\<not> ok res \<longrightarrow>
              apiPost_resume B (Responded res) = Inl (Error ''Non-JSON response'')))"
  by (simp add: apiPost_result_def parse_body_def Let_def)

theorem apiPost_body_contract_witness:
  "apiPost_resume reference (Responded \<lparr>ok = True, status = 204, text_body = []\<rparr>) = Inr JNull
   \<and> apiPost_resume reference (Responded \<lparr>ok = False, status = 500, text_body = []\<rparr>)
       = Inl (Error ''HTTP 500'')
   \<and> apiPost_resume reference (Responded \<lparr>ok = True, status = 200, text_body = ''<html>''\<rparr>)
       = Inr (JObj [(''error'', JStr ''Non-JSON response''), (''raw'', JStr ''<html>'')])
   \<and> apiPost_resume reference (Responded \<lparr>ok = False, status = 502, text_body = ''<html>''\<rparr>)
       = Inl (Error ''Non-JSON response'')"
proof -
  have a: "apiPost_resume reference (Responded \<lparr>ok = True, status = 204, text_body = []\<rparr>)
           = Inr JNull"
    using apiPost_body_contract [of "\<lparr>ok = True, status = 204, text_body = []\<rparr>" reference]
    by simp
  have b: "apiPost_resume reference (Responded \<lparr>ok = False, status = 500, text_body = []\<rparr>)
           = Inl (Error ''HTTP 500'')"
    using apiPost_body_contract [of "\<lparr>ok = False, status = 500, text_body = []\<rparr>" reference]
    by (simp add: http_message_def reference_status_500)
  have c: "apiPost_resume reference
             (Responded \<lparr>ok = True, status = 200, text_body = ''<html>''\<rparr>)
           = Inr (JObj [(''error'', JStr ''Non-JSON response''), (''raw'', JStr ''<html>'')])"
    using apiPost_body_contract
      [of "\<lparr>ok = True, status = 200, text_body = ''<html>''\<rparr>" reference]
    by (simp add: reference_parse_markup)
  have d: "apiPost_resume reference
             (Responded \<lparr>ok = False, status = 502, text_body = ''<html>''\<rparr>)
           = Inl (Error ''Non-JSON response'')"
    using apiPost_body_contract
      [of "\<lparr>ok = False, status = 502, text_body = ''<html>''\<rparr>" reference]
    by (simp add: reference_parse_markup)
  show ?thesis using a b c d by simp
qed

section \<open>Properties of the refresh report\<close>

lemma replaceAll_Nil: "replaceAll c r [] = []"
  by (simp add: replaceAll_def)

lemma replaceAll_Cons: "replaceAll c r (x # xs) = (if x = c then r else [x]) @ replaceAll c r xs"
  by (simp add: replaceAll_def)

lemma replaceAll_append: "replaceAll c r (xs @ ys) = replaceAll c r xs @ replaceAll c r ys"
  by (simp add: replaceAll_def)

lemma escape_text_Nil: "escape_text [] = []"
  by (simp add: escape_text_def replaceAll_Nil)

lemma escape_text_Cons: "escape_text (x # xs) = spec_entity x @ escape_text xs"
  by (simp add: escape_text_def spec_entity_def replaceAll_Cons replaceAll_append replaceAll_Nil)

lemma escape_text_spec: "escape_text s = spec_escape s"
  by (induction s) (simp_all add: escape_text_Nil escape_text_Cons spec_escape_def)

lemma escapeHtml_text: "escapeHtml B (JStr s) = Inr (spec_escape s)"
  by (simp add: escapeHtml_def nullish_else_def escape_text_spec)

lemma escapeHtml_value:
  "to_str B (nullish_else v (JStr [])) = Inr t \<Longrightarrow> escapeHtml B v = Inr (spec_escape t)"
  by (simp add: escapeHtml_def escape_text_spec)

lemma escapeHtml_result:
  "escapeHtml B v = Inr e \<Longrightarrow> \<exists>t. to_str B (nullish_else v (JStr [])) = Inr t \<and> e = spec_escape t"
  by (cases "to_str B (nullish_else v (JStr []))") (auto simp: escapeHtml_def escape_text_spec)

lemma spec_entity_plain:
  "set (spec_entity c) \<inter> {CHR ''<'', CHR ''>'', CHR 0x22, CHR 0x27} = {}"
  by (simp add: spec_entity_def)

lemma spec_escape_plain:
  "set (spec_escape s) \<inter> {CHR ''<'', CHR ''>'', CHR 0x22, CHR 0x27} = {}"
proof (induction s)
  case Nil
  show ?case by (simp add: spec_escape_def)
next
  case (Cons c s)
  have "spec_escape (c # s) = spec_entity c @ spec_escape s"
    by (simp add: spec_escape_def)
  with Cons spec_entity_plain [of c] show ?case
    by (simp add: Int_Un_distrib2)
qed

lemma bindE_Inr: "bindE r f = Inr y \<Longrightarrow> \<exists>x. r = Inr x \<and> f x = Inr y"
  by (cases r) simp_all

lemma collect_Inr:
  "collect (map f xs) = Inr ys \<Longrightarrow>
     length ys = length xs \<and> (\<forall>k < length xs. f (xs ! k) = Inr (ys ! k))"
proof (induction xs arbitrary: ys)
  case Nil
  then show ?case by simp
next
  case (Cons x xs)
  from Cons.prems obtain y where y: "f x = Inr y"
    by (cases "f x") simp_all
  with Cons.prems obtain zs where zs: "collect (map f xs) = Inr zs" and ys: "ys = y # zs"
    by (cases "collect (map f xs)") auto
  from Cons.IH [OF zs] y ys show ?case
    by (auto simp: nth_Cons split: nat.splits)
qed

lemma report_item_parts:
  assumes "report_item B it = Inr frag"
  shows "\<exists>t v i s. item_title B it = Inr t \<and> item_isbn B it = Inr v
           \<and> to_str B (nullish_else v (JStr [])) = Inr i \<and> item_sources B it = Inr s
           \<and> frag = item_markup (spec_escape t) (spec_escape i) (spec_escape s)"
proof -
  from assms obtain t where t: "item_title B it = Inr t"
    by (cases "item_title B it") (simp_all add: report_item_def)
  from assms t obtain s where s: "item_sources B it = Inr s"
    by (cases "item_sources B it") (simp_all add: report_item_def)
  from assms t s obtain v where v: "item_isbn B it = Inr v"
    by (cases "item_isbn B it") (simp_all add: report_item_def)
  from assms t s v obtain ei where ei: "escapeHtml B v = Inr ei"
    by (cases "escapeHtml B v") (simp_all add: report_item_def escapeHtml_text)
  from escapeHtml_result [OF ei] obtain i
    where i: "to_str B (nullish_else v (JStr [])) = Inr i" and "ei = spec_escape i"
    by blast
  with assms t s v ei have "frag = item_markup (spec_escape t) (spec_escape i) (spec_escape s)"
    by (simp add: report_item_def escapeHtml_text)
  with t s v i show ?thesis by blast
qed

lemma renderRefreshReport_markup:
  assumes present: "refreshReport_display p \<noteq> None" "refreshList_innerHTML p \<noteq> None"
    and items: "or_else (opt_get result ''updated_items'') (JArr []) = JArr xs" "xs \<noteq> []"
    and finished: "renderRefreshReport B p result = (p', None)"
  shows "\<exists>frags. collect (map (report_item B) xs) = Inr frags
           \<and> refreshList_innerHTML p' = Some (concat frags)"
proof -
  from present obtain d h
    where d: "refreshReport_display p = Some d" and h: "refreshList_innerHTML p = Some h"
    by auto
  from items have len: "truthy (length_of (JArr xs))"
    by simp
  have unfolded: "renderRefreshReport B p result =
      compute (p\<lparr>refreshReport_display := Some ''block''\<rparr>)
        (bindE (collect (map (report_item B) xs)) (\<lambda>frags. Inr (concat frags)))
        (\<lambda>html. (p\<lparr>refreshReport_display := Some ''block'',
                       refreshList_innerHTML := Some html\<rparr>, None))"
    using d h len items(1) by (simp add: renderRefreshReport_def report_markup_def Let_def)
  show ?thesis
  proof (cases "collect (map (report_item B) xs)")
    case (Inl e)
    with unfolded finished show ?thesis by simp
  next
    case (Inr frags)
    with unfolded finished show ?thesis by auto
  qed
qed

lemma markup_report_item:
  \<open>report_item reference markup_item
     = Inr (item_markup ''&lt;b&gt;A&amp;B&lt;/b&gt;'' ''1&quot;2'' ''&lt;x&gt; + y'')\<close>
  by code_simp

lemma markup_doc_items:
  "or_else (opt_get markup_doc ''updated_items'') (JArr []) = JArr [markup_item]"
  by (simp add: or_else_def opt_get_def markup_doc_def)

lemma markup_doc_rendered:
  "snd (renderRefreshReport reference sample_page markup_doc) = None"
  by code_simp

text \<open>
  C10. On a string \<^verbatim>\<open>escapeHtml\<close> returns what the specification describes, each of
  the five characters replaced by its entity; \<^verbatim>\<open>null\<close> and \<^verbatim>\<open>undefined\<close>
  give the empty text; and the result holds no \<^verbatim>\<open><\<close>, \<^verbatim>\<open>>\<close> or quote. When
  \<^verbatim>\<open>renderRefreshReport\<close> writes the list, the markup is the entries' markup in
  order, and in each entry the title, the ISBN and the sources it computed stand escaped
  in the three holes of the template.
\<close>

theorem refresh_report_escaped:
  "escapeHtml B (JStr s) = Inr (spec_escape s)
   \<and> escapeHtml B JNull = Inr [] \<and> escapeHtml B JUndefined = Inr []
   \<and> set (spec_escape s) \<inter> {CHR ''<'', CHR ''>'', CHR 0x22, CHR 0x27} = {}
   \<and> (refreshReport_display p \<noteq> None \<and> refreshList_innerHTML p \<noteq> None
        \<and> or_else (opt_get result ''updated_items'') (JArr []) = JArr xs \<and> xs \<noteq> []
        \<and> renderRefreshReport B p result = (p', None) \<longrightarrow>
      (\<exists>frags. length frags = length xs
         \<and> refreshList_innerHTML p' = Some (concat frags)
         \<and> (\<forall>k < length xs. \<exists>t v i src.
               item_title B (xs ! k) = Inr t \<and> item_isbn B (xs ! k) = Inr v
               \<and> to_str B (nullish_else v (JStr [])) = Inr i
               \<and> item_sources B (xs ! k) = Inr src
               \<and> frags ! k = item_markup (spec_escape t) (spec_escape i) (spec_escape src))))"
proof -
  have nulls: "escapeHtml B JNull = Inr [] \<and> escapeHtml B JUndefined = Inr []"
    by (simp add: escapeHtml_def nullish_else_def escape_text_Nil)
  have report: "\<exists>frags. length frags = length xs
         \<and> refreshList_innerHTML p' = Some (concat frags)
         \<and> (\<forall>k < length xs. \<exists>t v i src.
               item_title B (xs ! k) = Inr t \<and> item_isbn B (xs ! k) = Inr v
               \<and> to_str B (nullish_else v (JStr [])) = Inr i
               \<and> item_sources B (xs ! k) = Inr src
               \<and> frags ! k = item_markup (spec_escape t) (spec_escape i) (spec_escape src))"
    if "refreshReport_display p \<noteq> None" "refreshList_innerHTML p \<noteq> None"
      "or_else (opt_get result ''updated_items'') (JArr []) = JArr xs" "xs \<noteq> []"
      "renderRefreshReport B p result = (p', None)"
  proof -
    from renderRefreshReport_markup [OF that] obtain frags
      where frags: "collect (map (report_item B) xs) = Inr frags"
        and html: "refreshList_innerHTML p' = Some (concat frags)"
      by blast
    from collect_Inr [OF frags]
    have len: "length frags = length xs"
      and each: "\<forall>k < length xs. report_item B (xs ! k) = Inr (frags ! k)"
      by simp_all
    from each report_item_parts
    have "\<forall>k < length xs. \<exists>t v i src.
               item_title B (xs ! k) = Inr t \<and> item_isbn B (xs ! k) = Inr v
               \<and> to_str B (nullish_else v (JStr [])) = Inr i
               \<and> item_sources B (xs ! k) = Inr src
               \<and> frags ! k = item_markup (spec_escape t) (spec_escape i) (spec_escape src)"
      by blast
    with len html show ?thesis by blast
  qed
  from escapeHtml_text nulls spec_escape_plain report show ?thesis by blast
qed

theorem refresh_report_escaped_witness:
  \<open>escapeHtml reference (JStr ''<b>A&B</b>'') = Inr ''&lt;b&gt;A&amp;B&lt;/b&gt;''
   \<and> refreshList_innerHTML (fst (renderRefreshReport reference sample_page markup_doc))
       = Some (item_markup ''&lt;b&gt;A&amp;B&lt;/b&gt;'' ''1&quot;2'' ''&lt;x&gt; + y'')\<close>
proof -
  define p' where "p' = fst (renderRefreshReport reference sample_page markup_doc)"
  have finished: "renderRefreshReport reference sample_page markup_doc = (p', None)"
    using markup_doc_rendered by (simp add: p'_def prod_eq_iff)
  have present: "refreshReport_display sample_page \<noteq> None"
    "refreshList_innerHTML sample_page \<noteq> None"
    by (simp_all add: sample_page_def)
  from refresh_report_escaped
    [of reference "''<b>A&B</b>''" sample_page markup_doc "[markup_item]" p']
    present markup_doc_items finished
  obtain frags t v i src
    where esc: "escapeHtml reference (JStr ''<b>A&B</b>'') = Inr (spec_escape ''<b>A&B</b>'')"
      and len: "length frags = 1"
      and html: "refreshList_innerHTML p' = Some (concat frags)"
      and t: "item_title reference markup_item = Inr t"
      and v: "item_isbn reference markup_item = Inr v"
      and i: "to_str reference (nullish_else v (JStr [])) = Inr i"
      and src: "item_sources reference markup_item = Inr src"
      and frag: "frags ! 0 = item_markup (spec_escape t) (spec_escape i) (spec_escape src)"
    by auto
  have "report_item reference markup_item = Inr (frags ! 0)"
    using t v i src frag escapeHtml_value [OF i]
    by (simp add: report_item_def escapeHtml_text)
  with markup_report_item
  have "frags ! 0 = item_markup ''&lt;b&gt;A&amp;B&lt;/b&gt;'' ''1&quot;2'' ''&lt;x&gt; + y''"
    by simp
  moreover from len have "concat frags = frags ! 0"
    by (cases frags) simp_all
  moreover have "spec_escape ''<b>A&B</b>'' = ''&lt;b&gt;A&amp;B&lt;/b&gt;''"
    by (simp add: spec_escape_def spec_entity_def)
  ultimately show ?thesis using esc html by (simp add: p'_def)
qed

section \<open>Properties of the scan workflow\<close>

subsection \<open>The debounce delay\<close>

lemma Math_clamp_Fin:
  "Math_max (Fin 50) (Math_min (Fin 2000) (Fin q)) = Fin (max 50 (min 2000 q))"
  by (simp add: Math_max_def Math_min_def max_def min_def)

lemma Math_clamp_bounds:
  assumes "n \<noteq> NaN"
  shows "num_le (Fin 50) (Math_max (Fin 50) (Math_min (Fin 2000) n))
         \<and> num_le (Math_max (Fin 50) (Math_min (Fin 2000) n)) (Fin 2000)"
  using assms by (cases n) (simp_all add: Math_max_def Math_min_def)

lemmas decimal_number_defs =
  reference_def decimal_number_def ascii_trim_def is_space_def unsigned_decimal_def
  is_digit_def exponent_of_def scale10_def digits_value_def digit_value_def

lemma reference_abc: "toNumber reference ''abc'' = NaN"
  by (simp add: decimal_number_defs)

lemma reference_100: "toNumber reference ''100'' = Fin 100"
  by (simp add: decimal_number_defs)

lemma reference_5000: "toNumber reference ''5000'' = Fin 5000"
  by (simp add: decimal_number_defs)

text \<open>
  What the clamp does keep. When the delay field is absent or empty, the delay is 250 ms.
  When its text converts to a number, the delay is that number brought into the closed
  interval from 50 to 2000, and that is the delay of the timer \<^verbatim>\<open>scheduleLookup\<close>
  sets.
\<close>

theorem lookup_delay_clamped:
  "(delay_number B (scannerDelayInput p) \<noteq> NaN \<longrightarrow>
      num_le (Fin 50) (lookup_delay B p) \<and> num_le (lookup_delay B p) (Fin 2000))
   \<and> (\<forall>i q. scannerDelayInput p = Some i \<and> input_value i \<noteq> []
          \<and> toNumber B (input_value i) = Fin q \<longrightarrow>
          lookup_delay B p = Fin (max 50 (min 2000 q)))
   \<and> (scannerDelayInput p = None \<or> (\<exists>i. scannerDelayInput p = Some i \<and> input_value i = [])
        \<longrightarrow> lookup_delay B p = Fin 250)
   \<and> (scannerMode_checked p = Some True \<longrightarrow>
        timers (scheduleLookup B p) \<noteq> []
        \<and> snd (last (timers (scheduleLookup B p))) = lookup_delay B p)"
proof -
  have bounds: "delay_number B (scannerDelayInput p) \<noteq> NaN \<Longrightarrow>
      num_le (Fin 50) (lookup_delay B p) \<and> num_le (lookup_delay B p) (Fin 2000)"
    unfolding lookup_delay_def by (rule Math_clamp_bounds)
  have finite: "lookup_delay B p = Fin (max 50 (min 2000 q))"
    if "scannerDelayInput p = Some i" "input_value i \<noteq> []" "toNumber B (input_value i) = Fin q"
    for i q
    using that by (simp add: lookup_delay_def delay_number_def Math_clamp_Fin)
  have default:
    "scannerDelayInput p = None \<or> (\<exists>i. scannerDelayInput p = Some i \<and> input_value i = [])
       \<Longrightarrow> lookup_delay B p = Fin 250"
    by (auto simp: lookup_delay_def delay_number_def Math_clamp_Fin)
  have timer: "scannerMode_checked p = Some True \<Longrightarrow>
      timers (scheduleLookup B p) \<noteq> []
      \<and> snd (last (timers (scheduleLookup B p))) = lookup_delay B p"
    by (simp add: scheduleLookup_def setTimeout_def Let_def)
  show ?thesis
  proof (intro conjI impI allI)
    assume "delay_number B (scannerDelayInput p) \<noteq> NaN"
    then show "num_le (Fin 50) (lookup_delay B p)" and "num_le (lookup_delay B p) (Fin 2000)"
      using bounds by simp_all
  next
    fix i q
    assume "scannerDelayInput p = Some i \<and> input_value i \<noteq> []
            \<and> toNumber B (input_value i) = Fin q"
    then show "lookup_delay B p = Fin (max 50 (min 2000 q))"
      using finite by simp
  next
    assume "scannerDelayInput p = None
            \<or> (\<exists>i. scannerDelayInput p = Some i \<and> input_value i = [])"
    then show "lookup_delay B p = Fin 250"
      by (rule default)
  next
    assume "scannerMode_checked p = Some True"
    then show "timers (scheduleLookup B p) \<noteq> []"
      and "snd (last (timers (scheduleLookup B p))) = lookup_delay B p"
      using timer by simp_all
  qed
qed

theorem lookup_delay_clamped_witness:
  "lookup_delay reference
     (sample_page\<lparr>scannerDelayInput := Some \<lparr>input_value = ''100'', input_disabled = False\<rparr>\<rparr>)
     = Fin 100
   \<and> lookup_delay reference
       (sample_page\<lparr>scannerDelayInput := Some \<lparr>input_value = ''5000'', input_disabled = False\<rparr>\<rparr>)
     = Fin 2000
   \<and> lookup_delay reference
       (sample_page\<lparr>scannerDelayInput := Some \<lparr>input_value = [], input_disabled = False\<rparr>\<rparr>)
     = Fin 250
   \<and> timers (scheduleLookup reference
       (sample_page\<lparr>scannerDelayInput := Some \<lparr>input_value = ''100'', input_disabled = False\<rparr>\<rparr>))
     = [(1, Fin 100)]
   \<and> num_le (Fin 50)
       (lookup_delay reference
          (sample_page\<lparr>scannerDelayInput :=
             Some \<lparr>input_value = ''5000'', input_disabled = False\<rparr>\<rparr>))
   \<and> num_le
       (lookup_delay reference
          (sample_page\<lparr>scannerDelayInput :=
             Some \<lparr>input_value = ''5000'', input_disabled = False\<rparr>\<rparr>))
       (Fin 2000)"
proof -
  define p100 where
    "p100 = sample_page\<lparr>scannerDelayInput := Some \<lparr>input_value = ''100'', input_disabled = False\<rparr>\<rparr>"
  define p5000 where
    "p5000 = sample_page\<lparr>scannerDelayInput := Some \<lparr>input_value = ''5000'', input_disabled = False\<rparr>\<rparr>"
  define p0 where
    "p0 = sample_page\<lparr>scannerDelayInput := Some \<lparr>input_value = [], input_disabled = False\<rparr>\<rparr>"
  have a: "lookup_delay reference p100 = Fin 100"
    using lookup_delay_clamped [of reference p100] reference_100 by (simp add: p100_def)
  have b: "lookup_delay reference p5000 = Fin 2000"
    using lookup_delay_clamped [of reference p5000] reference_5000 by (simp add: p5000_def)
  have c: "lookup_delay reference p0 = Fin 250"
    using lookup_delay_clamped [of reference p0] by (simp add: p0_def)
  have "scannerMode_checked p100 = Some True"
    by (simp add: p100_def sample_page_def)
  with lookup_delay_clamped [of reference p100] a
  have "snd (last (timers (scheduleLookup reference p100))) = Fin 100"
    by simp
  moreover have "map fst (timers (scheduleLookup reference p100)) = [1]"
    by (simp add: scheduleLookup_def setTimeout_def Let_def p100_def sample_page_def)
  ultimately have d: "timers (scheduleLookup reference p100) = [(1, Fin 100)]"
    by (cases "timers (scheduleLookup reference p100)") (auto simp: prod_eq_iff)
  have "delay_number reference (scannerDelayInput p5000) \<noteq> NaN"
    by (simp add: p5000_def delay_number_def reference_5000)
  with lookup_delay_clamped [of reference p5000]
  have e: "num_le (Fin 50) (lookup_delay reference p5000)
           \<and> num_le (lookup_delay reference p5000) (Fin 2000)"
    by blast
  from a b c d e show ?thesis
    unfolding p100_def p5000_def p0_def by blast
qed

text \<open>
  C7 on the code. The delay field holds \<^verbatim>\<open>abc\<close>. \<^verbatim>\<open>Number("abc")\<close> is
  \<^verbatim>\<open>NaN\<close>, and \<^verbatim>\<open>Math.min\<close> and \<^verbatim>\<open>Math.max\<close> hand it on: the
  delay computed is \<^verbatim>\<open>NaN\<close>, which lies in no interval, and an input event in
  scanner mode sets a timer with that delay.
\<close>

theorem lookup_delay_not_a_number:
  "lookup_delay reference
     (sample_page\<lparr>scannerDelayInput := Some \<lparr>input_value = ''abc'', input_disabled = False\<rparr>\<rparr>)
     = NaN
   \<and> \<not> (num_le (Fin 50)
           (lookup_delay reference
              (sample_page\<lparr>scannerDelayInput :=
                 Some \<lparr>input_value = ''abc'', input_disabled = False\<rparr>\<rparr>))
         \<and> num_le
             (lookup_delay reference
                (sample_page\<lparr>scannerDelayInput :=
                   Some \<lparr>input_value = ''abc'', input_disabled = False\<rparr>\<rparr>))
             (Fin 2000))
   \<and> timers
       (step reference
          (sample_page\<lparr>scannerDelayInput :=
             Some \<lparr>input_value = ''abc'', input_disabled = False\<rparr>\<rparr>)
          (Input ''9780132350884''))
       = [(1, NaN)]"
  by (simp add: lookup_delay_def delay_number_def reference_abc Math_min_def Math_max_def
      step_def scheduleLookup_def setTimeout_def Let_def sample_page_def)

subsection \<open>Rendering a lookup result\<close>

lemma renderLookup_outcome:
  assumes "renderLookup B p r = (p', None)"
  shows "btnSave_disabled p' = (\<not> (truthy (field r ''book'') \<and> \<not> truthy (field r ''error'')))"
    and "preview_display p'
           = (if truthy (field r ''book'') \<and> \<not> truthy (field r ''error'')
              then ''block'' else ''none'')"
proof -
  have save: "btnSave_disabled (fst (render_book B q b)) = False"
    if "snd (render_book B q b) = None" for q b
    using that by (simp add: render_book_save)
  from assms save
  show "btnSave_disabled p' = (\<not> (truthy (field r ''book'') \<and> \<not> truthy (field r ''error'')))"
    by (auto simp: renderLookup_def get_def Let_def statement_splits prod_eq_iff
        split: sum.splits option.splits if_splits)
  from assms render_book_preview
  show "preview_display p'
           = (if truthy (field r ''book'') \<and> \<not> truthy (field r ''error'')
              then ''block'' else ''none'')"
    by (auto simp: renderLookup_def get_def Let_def statement_splits prod_eq_iff
        split: sum.splits option.splits if_splits)
qed

lemma renderLookup_enables:
  assumes "btnSave_disabled p" and "\<not> btnSave_disabled (fst (renderLookup B p r))"
  shows "snd (renderLookup B p r) = None \<and> truthy (field r ''book'')
         \<and> \<not> truthy (field r ''error'')"
proof -
  have kept: "btnSave_disabled (fst (render_book B q b)) = btnSave_disabled q"
    if "snd (render_book B q b) \<noteq> None" for q b
    using that by (auto simp: render_book_save)
  have "snd (renderLookup B p r) = None"
  proof (rule ccontr)
    assume "snd (renderLookup B p r) \<noteq> None"
    with kept have "btnSave_disabled (fst (renderLookup B p r)) = btnSave_disabled p"
      by (auto simp: renderLookup_def get_def Let_def statement_splits showStatus_save
          split: sum.splits option.splits if_splits)
    with assms show False by simp
  qed
  then have "renderLookup B p r = (fst (renderLookup B p r), None)"
    by (simp add: prod_eq_iff)
  from renderLookup_outcome(1) [OF this] assms(2) \<open>snd (renderLookup B p r) = None\<close>
  show ?thesis by simp
qed


lemma scalar_to_str: "is_scalar v \<Longrightarrow> \<exists>s. to_str B v = Inr s"
  by (cases v) simp_all

lemma text_to_str: "is_text v \<Longrightarrow> \<exists>s. to_str B v = Inr s"
  by (cases v) simp_all

lemma text_upper: "is_text v \<Longrightarrow> \<exists>s. upper B v = Inr s"
  by (cases v) simp_all

lemma text_is_scalar: "is_text v \<Longrightarrow> is_scalar v"
  by (cases v) simp_all

lemma nullish_is_scalar: "nullish v \<Longrightarrow> is_scalar v"
  by (cases v) simp_all

lemma object_not_nullish: "is_object v \<Longrightarrow> \<not> nullish v"
  by (cases v) simp_all

lemma scalars_collect:
  "list_all is_scalar xs \<Longrightarrow>
     \<exists>ss. collect (map (\<lambda>x. if nullish x then Inr [] else to_str B x) xs) = Inr ss"
proof (induction xs)
  case Nil
  show ?case by simp
next
  case (Cons x xs)
  then obtain ss where "collect (map (\<lambda>x. if nullish x then Inr [] else to_str B x) xs) = Inr ss"
    by auto
  moreover from Cons.prems obtain s where "to_str B x = Inr s"
    using scalar_to_str by auto
  ultimately show ?case by simp
qed

lemma scalars_join: "list_all is_scalar xs \<Longrightarrow> \<exists>s. join B (JArr xs) sep = Inr s"
  using scalars_collect [of xs B] by auto

lemma texts_are_scalars: "list_all is_text xs \<Longrightarrow> list_all is_scalar xs"
  by (induction xs) (auto simp: text_is_scalar)

lemma book_subtitle_total: "is_Book b \<Longrightarrow> \<exists>s. book_subtitle B b = Inr s"
  using scalar_to_str [of "field b ''subtitle''" B]
  by (auto simp: is_Book_def book_subtitle_def get_def object_not_nullish)

lemma book_title_total: "is_Book b \<Longrightarrow> \<exists>s. book_title B b sub = Inr s"
  using scalar_to_str [of "field b ''title''" B]
  by (auto simp: is_Book_def book_title_def get_def object_not_nullish or_else_def)

lemma book_authors_total:
  assumes "is_Book b"
  shows "\<exists>s. book_authors B b = Inr s"
proof (cases "nullish (field b ''authors'')")
  case True
  then have "or_else (field b ''authors'') (JArr []) = JArr []"
    using truthy_not_nullish by (auto simp: or_else_def)
  with assms show ?thesis
    by (simp add: is_Book_def book_authors_def get_def object_not_nullish)
next
  case False
  with assms obtain xs where xs: "field b ''authors'' = JArr xs" "list_all is_text xs"
    by (cases "field b ''authors''") (auto simp: is_Book_def)
  then have "or_else (field b ''authors'') (JArr []) = JArr xs"
    by (simp add: or_else_def)
  moreover from xs obtain s where "join B (JArr xs) '', '' = Inr s"
    using scalars_join texts_are_scalars by blast
  ultimately show ?thesis using assms
    by (simp add: is_Book_def book_authors_def get_def object_not_nullish)
qed

lemma book_meta_total:
  assumes "is_Book b"
  shows "\<exists>s. book_meta B b authors = Inr s"
proof -
  from assms have obj: "\<not> nullish b"
    by (simp add: is_Book_def object_not_nullish)
  obtain pages where pages:
    "(if truthy (field b ''nb_pages'')
      then bindE (to_str B (field b ''nb_pages'')) (\<lambda>x. Inr (JStr (x @ '' pages'')))
      else Inr JNull) = Inr pages" "is_scalar pages"
  proof (cases "truthy (field b ''nb_pages'')")
    case True
    from assms obtain n where "to_str B (field b ''nb_pages'') = Inr n"
      using scalar_to_str [of "field b ''nb_pages''" B] by (auto simp: is_Book_def)
    with True that [of "JStr (n @ '' pages'')"] show ?thesis by simp
  next
    case False
    with that [of JNull] show ?thesis by simp
  qed
  obtain lang where lang:
    "(if truthy (field b ''language'')
      then bindE (upper B (field b ''language'')) (\<lambda>x. Inr (JStr x))
      else Inr JNull) = Inr lang" "is_scalar lang"
  proof (cases "truthy (field b ''language'')")
    case True
    with assms have "is_text (field b ''language'')"
      using truthy_not_nullish by (auto simp: is_Book_def)
    then obtain u where "upper B (field b ''language'') = Inr u"
      using text_upper by blast
    with True that [of "JStr u"] show ?thesis by simp
  next
    case False
    with that [of JNull] show ?thesis by simp
  qed
  have "is_scalar (or_else (field b ''publish_date'') (JStr ''(no date)''))"
    using assms by (simp add: is_Book_def or_else_def)
  moreover have "is_scalar (or_else (JStr authors) (JStr ''(no authors)''))"
    by (simp add: or_else_def)
  ultimately have "list_all is_scalar
      (filter truthy [or_else (JStr authors) (JStr ''(no authors)''),
                      or_else (field b ''publish_date'') (JStr ''(no date)''), pages, lang])"
    using pages(2) lang(2) by simp
  from scalars_join [OF this] obtain s where
    "join B (JArr (filter truthy [or_else (JStr authors) (JStr ''(no authors)''),
                      or_else (field b ''publish_date'') (JStr ''(no date)''), pages, lang]))
       middle_dot_sep = Inr s" ..
  with pages(1) lang(1) obj show ?thesis
    by (simp add: book_meta_def get_def)
qed

lemma source_provider: "is_source s \<Longrightarrow> is_scalar (opt_get s ''provider'')"
  by (cases s) (auto simp: opt_get_def text_is_scalar nullish_is_scalar)

lemma book_provider_total:
  assumes "is_Book b"
  shows "\<exists>s. book_provider B b = Inr s"
proof -
  from assms have obj: "\<not> nullish b"
    by (simp add: is_Book_def object_not_nullish)
  obtain xs where xs: "or_else (field b ''sources'') (JArr []) = JArr xs" "list_all is_source xs"
  proof (cases "nullish (field b ''sources'')")
    case True
    then have "or_else (field b ''sources'') (JArr []) = JArr []"
      using truthy_not_nullish by (auto simp: or_else_def)
    with that [of "[]"] show ?thesis by simp
  next
    case False
    with assms obtain ys where "field b ''sources'' = JArr ys" "list_all is_source ys"
      by (cases "field b ''sources''") (auto simp: is_Book_def)
    with that [of ys] show ?thesis by (simp add: or_else_def)
  qed
  from xs(2) have "list_all is_scalar (filter truthy (map (\<lambda>s. opt_get s ''provider'') xs))"
    by (induction xs) (auto simp: source_provider)
  from scalars_join [OF this] obtain j where
    "join B (JArr (filter truthy (map (\<lambda>s. opt_get s ''provider'') xs))) '' + '' = Inr j" ..
  with xs(1) obj show ?thesis
    by (auto simp: book_provider_def get_def Let_def)
qed

lemma show_cover_total:
  "nullish c \<or> is_text c \<Longrightarrow> snd (show_cover B p c) = None"
  by (cases c) (auto simp: show_cover_def)

lemma render_book_total:
  assumes "is_Book b"
  shows "snd (render_book B p b) = None"
proof -
  from assms have obj: "\<not> nullish b"
    and cover: "nullish (field b ''cover_image'') \<or> is_text (field b ''cover_image'')"
    by (simp_all add: is_Book_def object_not_nullish)
  obtain sub where sub: "book_subtitle B b = Inr sub"
    using book_subtitle_total [OF assms] by blast
  obtain t where t: "book_title B b sub = Inr t"
    using book_title_total [OF assms] by blast
  obtain a where a: "book_authors B b = Inr a"
    using book_authors_total [OF assms] by blast
  obtain m where m: "book_meta B b a = Inr m"
    using book_meta_total [OF assms] by blast
  obtain pr where pr: "book_provider B b = Inr pr"
    using book_provider_total [OF assms] by blast
  show ?thesis
    using sub t a m pr obj show_cover_total [OF cover]
    by (simp add: render_book_def Let_def get_def and_then_split split: option.splits)
qed

lemma renderLookup_total:
  assumes "is_LookupResult r"
  shows "snd (renderLookup B p r) = None"
proof (cases "truthy (field r ''error'')")
  case True
  with assms obtain s where "to_str B (field r ''error'') = Inr s"
    using scalar_to_str by (auto simp: is_LookupResult_def)
  with True assms show ?thesis
    using truthy_not_nullish [OF True]
    by (simp add: renderLookup_def get_def Let_def is_LookupResult_def object_not_nullish
        showStatus_def dom_text_def)
next
  case False
  with assms have obj: "\<not> nullish r" and kind: "is_text (field r ''kind'')"
    and val: "is_scalar (field r ''value'')"
    and book: "nullish (field r ''book'') \<or> is_Book (field r ''book'')"
    by (simp_all add: is_LookupResult_def object_not_nullish)
  obtain ku where ku: "upper B (field r ''kind'') = Inr ku"
    using text_upper [OF kind] by blast
  obtain vs where vs: "to_str B (field r ''value'') = Inr vs"
    using scalar_to_str [OF val] by blast
  have line: "ok_line B r = Inr (''OK: '' @ ku @ '' '' @ vs)"
    using obj ku vs by (simp add: ok_line_def get_def)
  show ?thesis
  proof (cases "truthy (field r ''book'')")
    case True
    with book have "is_Book (field r ''book'')"
      using truthy_not_nullish by blast
    from render_book_total [OF this] True False obj line show ?thesis
      by (simp add: renderLookup_def get_def Let_def showStatus_text)
  next
    case no_book: False
    with False obj line show ?thesis
      by (simp add: renderLookup_def get_def Let_def showStatus_text)
  qed
qed

lemma clean_code_is_result: "is_LookupResult clean_code_doc"
  by (simp add: is_LookupResult_def is_Book_def clean_code_doc_def clean_code_book_def)

lemma not_found_is_result: "is_LookupResult not_found_doc"
  by (simp add: is_LookupResult_def not_found_doc_def)

text \<open>
  C2. For every lookup result of the data model, \<^verbatim>\<open>renderLookup\<close> renders it to
  the end, and then: if the result carries a book and no error, the save button is
  enabled; if it carries an error or no book, the save button is disabled and the
  preview is hidden. A result carries a field when the field is truthy, as the code
  tests it.
\<close>

theorem renderLookup_save_button:
  "is_LookupResult r \<longrightarrow>
     snd (renderLookup B p r) = None
     \<and> (truthy (field r ''book'') \<and> \<not> truthy (field r ''error'') \<longrightarrow>
          \<not> btnSave_disabled (fst (renderLookup B p r)))
     \<and> (truthy (field r ''error'') \<or> \<not> truthy (field r ''book'') \<longrightarrow>
          btnSave_disabled (fst (renderLookup B p r))
          \<and> preview_display (fst (renderLookup B p r)) = ''none'')"
proof
  assume shape: "is_LookupResult r"
  define p' where "p' = fst (renderLookup B p r)"
  from renderLookup_total [OF shape, of B p]
  have total: "snd (renderLookup B p r) = None" .
  then have rendered: "renderLookup B p r = (p', None)"
    by (simp add: p'_def prod_eq_iff)
  have enabled: "\<not> btnSave_disabled p'"
    if "truthy (field r ''book'') \<and> \<not> truthy (field r ''error'')"
    using renderLookup_outcome(1) [OF rendered] that by simp
  have disabled: "btnSave_disabled p' \<and> preview_display p' = ''none''"
    if "truthy (field r ''error'') \<or> \<not> truthy (field r ''book'')"
    using renderLookup_outcome [OF rendered] that by auto
  from total enabled disabled
  show "snd (renderLookup B p r) = None
     \<and> (truthy (field r ''book'') \<and> \<not> truthy (field r ''error'') \<longrightarrow>
          \<not> btnSave_disabled (fst (renderLookup B p r)))
     \<and> (truthy (field r ''error'') \<or> \<not> truthy (field r ''book'') \<longrightarrow>
          btnSave_disabled (fst (renderLookup B p r))
          \<and> preview_display (fst (renderLookup B p r)) = ''none'')"
    unfolding p'_def by blast
qed

theorem renderLookup_save_button_witness:
  "\<not> btnSave_disabled (fst (renderLookup reference sample_page clean_code_doc))
   \<and> btnSave_disabled (fst (renderLookup reference first_shown not_found_doc))
   \<and> preview_display (fst (renderLookup reference first_shown not_found_doc)) = ''none''"
proof -
  have book: "truthy (field clean_code_doc ''book'') \<and> \<not> truthy (field clean_code_doc ''error'')"
    by (simp add: clean_code_doc_def clean_code_book_def)
  have err: "truthy (field not_found_doc ''error'')"
    by (simp add: not_found_doc_def)
  have a: "\<not> btnSave_disabled (fst (renderLookup reference sample_page clean_code_doc))"
    using renderLookup_save_button [of clean_code_doc reference sample_page]
      clean_code_is_result book
    by blast
  have b: "btnSave_disabled (fst (renderLookup reference first_shown not_found_doc))
           \<and> preview_display (fst (renderLookup reference first_shown not_found_doc)) = ''none''"
    using renderLookup_save_button [of not_found_doc reference first_shown]
      not_found_is_result err
    by blast
  from a b show ?thesis by simp
qed

subsection \<open>The save button\<close>

lemma lookup_failed_save: "btnSave_disabled (fst (lookup_failed B p e)) = btnSave_disabled p"
  using showStatus_save [of B p]
  by (simp add: lookup_failed_def and_then_split split: option.splits)

lemma save_failed_save: "btnSave_disabled (fst (save_failed B p e)) = btnSave_disabled p"
  by (simp add: save_failed_def showStatus_save)

lemma refresh_failed_save: "btnSave_disabled (fst (refresh_failed B p e)) = btnSave_disabled p"
  by (simp add: refresh_failed_def showStatus_save)

lemma doLookup_save: "btnSave_disabled p \<Longrightarrow> btnSave_disabled (fst (doLookup B p))"
  by (simp add: doLookup_def Let_def showStatus_text fetch_post_def clearUI_def)

lemma doSave_save: "btnSave_disabled (fst (doSave B p)) = btnSave_disabled p"
  by (simp add: doSave_def showStatus_text fetch_post_def save_failed_def get_def
      statement_splits showStatus_save split: sum.splits)

lemma refreshAllBooks_save: "btnSave_disabled (fst (refreshAllBooks B p c)) = btnSave_disabled p"
  by (simp add: refreshAllBooks_def showStatus_text fetch_post_def)

lemma doSave_resume_save:
  "btnSave_disabled p \<Longrightarrow> btnSave_disabled (fst (doSave_resume B p out))"
  by (simp add: doSave_resume_def doSave_body_def Let_def statement_splits showStatus_text
      save_failed_def or_else_def split: sum.splits option.splits)

lemma refreshAllBooks_resume_save:
  "btnSave_disabled (fst (refreshAllBooks_resume B p out)) = btnSave_disabled p"
  using renderRefreshReport_save [of B "p\<lparr>raw_json := r\<rparr>" r for r]
  by (simp add: refreshAllBooks_resume_def refreshAllBooks_body_def statement_splits
      showStatus_text refresh_failed_def or_else_def split: sum.splits option.splits)

lemma doLookup_resume_enables:
  assumes "btnSave_disabled p" and "\<not> btnSave_disabled (fst (doLookup_resume B p out))"
  shows "carries_book B out"
proof (cases "apiPost_resume B out")
  case (Inl e)
  with assms show ?thesis
    by (simp add: doLookup_resume_def doLookup_body_def lookup_failed_save)
next
  case (Inr result)
  have "\<not> btnSave_disabled (fst (renderLookup B p result))"
  proof (cases "snd (renderLookup B p result)")
    case None
    with assms Inr show ?thesis
      by (simp add: doLookup_resume_def doLookup_body_def try_catch_split)
  next
    case (Some e)
    with assms Inr show ?thesis
      by (simp add: doLookup_resume_def doLookup_body_def try_catch_split lookup_failed_save)
  qed
  from renderLookup_enables [OF assms(1) this] Inr show ?thesis
    by (simp add: carries_book_def)
qed

lemma updateScannerUI_save: "btnSave_disabled (fst (updateScannerUI B p)) = btnSave_disabled p"
  by (simp add: updateScannerUI_def split: option.splits)

lemma scheduleLookup_save: "btnSave_disabled (scheduleLookup B p) = btnSave_disabled p"
  by (simp add: scheduleLookup_def setTimeout_def clearTimeout_def Let_def split: option.splits)

lemma cancel_timer_save: "btnSave_disabled (cancel_timer p) = btnSave_disabled p"
  by (simp add: cancel_timer_def clearTimeout_def split: option.splits)

lemma restore_save: "btnSave_disabled (restore_delay (restore_mode p)) = btnSave_disabled p"
  by (simp add: restore_delay_def restore_mode_def getCookie_def split: option.splits)

lemma settle_enables:
  assumes "btnSave_disabled p" and "\<not> btnSave_disabled (fst (settle B p r out))"
  shows "map_of (in_flight p) r = Some Lookup \<and> carries_book B out"
proof (cases "map_of (in_flight p) r")
  case None
  with assms show ?thesis by (simp add: settle_def)
next
  case (Some a)
  define p1 where "p1 = p\<lparr>in_flight := filter (\<lambda>x. fst x \<noteq> r) (in_flight p)\<rparr>"
  have p1: "btnSave_disabled p1" using assms(1) by (simp add: p1_def)
  show ?thesis
  proof (cases a)
    case Lookup
    with Some assms(2) have "\<not> btnSave_disabled (fst (doLookup_resume B p1 out))"
      by (simp add: settle_def p1_def)
    from doLookup_resume_enables [OF p1 this] Some Lookup show ?thesis by simp
  next
    case Save
    with Some assms(2) doSave_resume_save [OF p1, of B out] show ?thesis
      by (simp add: settle_def p1_def)
  next
    case Refresh
    with Some assms(2) p1 refreshAllBooks_resume_save [of B p1 out] show ?thesis
      by (simp add: settle_def p1_def)
  qed
qed

lemma step_enables:
  assumes "btnSave_disabled p" and "\<not> btnSave_disabled (step B p ev)"
  shows "lookup_with_book B p ev"
proof (cases ev)
  case Load
  with assms show ?thesis
    by (simp add: step_def updateScannerUI_save restore_save clearUI_def)
next
  case ClickLookup
  with assms doLookup_save [of p B] show ?thesis by (simp add: step_def)
next
  case ClickSave
  with assms doSave_save [of B p] show ?thesis by (simp add: step_def Let_def)
next
  case ClickClear
  with assms show ?thesis by (simp add: step_def cancel_timer_save clearUI_def)
next
  case (KeyDown k)
  with assms doLookup_save [of "cancel_timer p" B] show ?thesis
    by (simp add: step_def cancel_timer_save split: if_splits)
next
  case (Input v)
  with assms show ?thesis by (simp add: step_def scheduleLookup_save)
next
  case (ChangeScannerMode b)
  with assms show ?thesis
    by (simp add: step_def updateScannerUI_save setCookie_def split: if_splits)
next
  case (ChangeScannerDelay v)
  with assms show ?thesis
    by (simp add: step_def setCookie_def split: option.splits)
next
  case (ToggleDryRun b)
  with assms show ?thesis by (simp add: step_def split: if_splits)
next
  case (ClickRefreshAll c)
  with assms show ?thesis by (simp add: step_def refreshAllBooks_save split: if_splits)
next
  case (TimerFires h)
  with assms doLookup_save [of "(clearTimeout p h)\<lparr>lookupTimer := None\<rparr>" B] show ?thesis
    by (simp add: step_def clearTimeout_def split: if_splits)
next
  case (Settles r out)
  with assms settle_enables [of p B r out] show ?thesis by (simp add: step_def)
qed

lemma run_Cons: "run B p (ev # evs) = run B (step B p ev) evs"
  by (simp add: run_def)

lemma run_stays_disabled:
  "btnSave_disabled p \<Longrightarrow> no_lookup_with_book B p evs \<Longrightarrow> btnSave_disabled (run B p evs)"
proof (induction evs arbitrary: p)
  case Nil
  then show ?case by (simp add: run_def)
next
  case (Cons ev evs)
  from Cons.prems have "btnSave_disabled (step B p ev)"
    using step_enables [of p B ev] by auto
  with Cons show ?case by (simp add: run_Cons)
qed

lemma doSave_resume_disables:
  assumes "apiPost_resume B out = Inr result" and "\<not> nullish result"
    and "to_str B (or_else (opt_get (field result ''saved'') ''id'') (JStr ''no id'')) = Inr i"
  shows "btnSave_disabled (fst (doSave_resume B p out))"
    and "snd (doSave_resume B p out) = None"
  using assms
  by (simp_all add: doSave_resume_def doSave_body_def saved_line_def get_def Let_def
      showStatus_text)

text \<open>
  What the save workflow does keep. A save whose request returns a value with an
  identifier that can be shown leaves the save button disabled. From a page with the
  button disabled, an event that leaves it enabled is the settling of a lookup whose
  result has a book and no error; so the button stays disabled along every run of events
  without one.
\<close>

theorem save_disabled_until_lookup:
  "(map_of (in_flight p) r = Some Save \<and> apiPost_resume B out = Inr result \<and> \<not> nullish result
      \<and> to_str B (or_else (opt_get (field result ''saved'') ''id'') (JStr ''no id'')) = Inr i
      \<longrightarrow> btnSave_disabled (step B p (Settles r out)))
   \<and> (btnSave_disabled p \<and> \<not> btnSave_disabled (step B p ev) \<longrightarrow> lookup_with_book B p ev)
   \<and> (btnSave_disabled p \<and> no_lookup_with_book B p evs \<longrightarrow> btnSave_disabled (run B p evs))"
proof -
  have "btnSave_disabled (step B p (Settles r out))"
    if "map_of (in_flight p) r = Some Save" "apiPost_resume B out = Inr result"
      "\<not> nullish result"
      "to_str B (or_else (opt_get (field result ''saved'') ''id'') (JStr ''no id'')) = Inr i"
    using that(1) doSave_resume_disables(1) [OF that(2,3,4)]
    by (simp add: step_def settle_def)
  with step_enables [of p B ev] run_stays_disabled [of p B evs] show ?thesis
    by blast
qed

lemma saved_response: "apiPost_resume reference (ok_response saved_text) = Inr saved_doc"
  by code_simp

lemma saved_identifier:
  "to_str reference (or_else (opt_get (field saved_doc ''saved'') ''id'') (JStr ''no id''))
     = Inr ''7''"
  by code_simp

lemma save_pending_in_flight: "map_of (in_flight save_pending) 2 = Some Save"
  by code_simp

lemma lookup_pending_disabled: "btnSave_disabled lookup_pending"
  by code_simp

lemma book_shown_enabled: "\<not> btnSave_disabled book_shown"
  by code_simp

lemma saved_then_quiet:
  "no_lookup_with_book reference saved
     [Input ''978'', ClickClear, ClickSave, ClickRefreshAll True,
      Settles 3 (ok_response refresh_text), Load]"
  by code_simp

theorem save_disabled_until_lookup_witness:
  "btnSave_disabled saved
   \<and> lookup_with_book reference lookup_pending (Settles 1 (ok_response clean_code_text))
   \<and> btnSave_disabled
       (run reference saved
          [Input ''978'', ClickClear, ClickSave, ClickRefreshAll True,
           Settles 3 (ok_response refresh_text), Load])"
proof -
  have a: "btnSave_disabled saved"
    using save_disabled_until_lookup
      [where p = save_pending and r = 2 and B = reference and out = "ok_response saved_text"
         and result = saved_doc and i = "''7''"]
      save_pending_in_flight saved_response saved_identifier
    by (simp add: saved_def saved_doc_def)
  have b: "lookup_with_book reference lookup_pending (Settles 1 (ok_response clean_code_text))"
    using save_disabled_until_lookup
      [where p = lookup_pending and B = reference
         and ev = "Settles 1 (ok_response clean_code_text)"]
      lookup_pending_disabled book_shown_enabled
    by (simp add: book_shown_def)
  have c: "btnSave_disabled
       (run reference saved
          [Input ''978'', ClickClear, ClickSave, ClickRefreshAll True,
           Settles 3 (ok_response refresh_text), Load])"
    using save_disabled_until_lookup
      [where p = saved and B = reference
         and evs = "[Input ''978'', ClickClear, ClickSave, ClickRefreshAll True,
                     Settles 3 (ok_response refresh_text), Load]"]
      a saved_then_quiet
    by simp
  from a b c show ?thesis by simp
qed

text \<open>
  C5 on the code. A book is on the page and the save button is clicked. The save is
  answered with status 200 and an empty body, which \<^verbatim>\<open>apiPost\<close> returns as
  \<^verbatim>\<open>null\<close> without raising: the save has succeeded. In \<^verbatim>\<open>doSave\<close>,
  \<^verbatim>\<open>result.saved?.id\<close> then throws on \<^verbatim>\<open>null\<close>, the handler shows the
  message of the \<^verbatim>\<open>TypeError\<close> in error colour, and
  \<^verbatim>\<open>els.btnSave.disabled = true\<close> is not reached: the save button is still enabled.
\<close>

theorem save_answered_with_empty_body:
  "\<not> btnSave_disabled save_pending
   \<and> map_of (in_flight save_pending) 2 = Some Save
   \<and> apiPost_resume reference (ok_response []) = Inr JNull
   \<and> \<not> btnSave_disabled (step reference save_pending (Settles 2 (ok_response [])))
   \<and> status_borderColor (step reference save_pending (Settles 2 (ok_response []))) = ''#d33''
   \<and> status_textContent (step reference save_pending (Settles 2 (ok_response [])))
       = ''Cannot read properties of null or undefined''
   \<and> btnSave_disabled (step reference save_pending (Settles 2 (ok_response saved_text)))"
  by code_simp

subsection \<open>Requests and caught errors\<close>

lemma lookup_failed_shows:
  "lookup_failed B p e =
     (p\<lparr>status_display := ''block'', status_borderColor := ''#d33'',
        status_textContent := (if message e = [] then ''Lookup failed'' else message e),
        raw_json := JObj [(''error'', JStr (String_of_error e))]\<rparr>, None)"
  by (simp add: lookup_failed_def or_else_def showStatus_text)

lemma save_failed_shows:
  "save_failed B p e =
     (p\<lparr>status_display := ''block'', status_borderColor := ''#d33'',
        status_textContent := (if message e = [] then ''Save failed'' else message e)\<rparr>, None)"
  by (simp add: save_failed_def or_else_def showStatus_text)

lemma refresh_failed_shows:
  "refresh_failed B p e =
     (p\<lparr>status_display := ''block'', status_borderColor := ''#d33'',
        status_textContent := (if message e = [] then ''Refresh failed'' else message e)\<rparr>,
      None)"
  by (simp add: refresh_failed_def or_else_def showStatus_text)

lemma doLookup_idle: "trim B (code_value p) = [] \<Longrightarrow> doLookup B p = (p, None)"
  by (simp add: doLookup_def)

lemma doLookup_sends:
  "trim B (code_value p) \<noteq> [] \<Longrightarrow>
     doLookup B p =
       (fetch_post
          ((clearUI p)\<lparr>status_display := ''block'', status_borderColor := ''#ddd'',
                       status_textContent := ''Looking up...''\<rparr>)
          Lookup ''/api/scan/lookup'' (JObj [(''code'', JStr (trim B (code_value p)))]),
        None)"
  by (simp add: doLookup_def Let_def showStatus_text)

lemma doLookup_no_exception: "snd (doLookup B p) = None"
  by (cases "trim B (code_value p) = []") (simp_all add: doLookup_idle doLookup_sends)

lemma doLookup_requests:
  "requests (fst (doLookup B p)) =
     requests p @
       (if trim B (code_value p) = [] then []
        else [\<lparr>req_path = ''/api/scan/lookup'', req_method = ''POST'',
               req_headers = [(''Content-Type'', ''application/json'')],
               req_body = JObj [(''code'', JStr (trim B (code_value p)))]\<rparr>])"
  by (simp add: doLookup_idle doLookup_sends fetch_post_def clearUI_def apiPost_request_def
      nullish_else_def)

lemma doLookup_in_flight:
  "trim B (code_value p) \<noteq> [] \<Longrightarrow>
     in_flight (fst (doLookup B p)) = in_flight p @ [(next_request p, Lookup)]"
  by (simp add: doLookup_sends fetch_post_def clearUI_def)

lemma doLookup_timers: "fst (frame (fst (doLookup B p))) = fst (frame p)"
  by (cases "trim B (code_value p) = []")
    (simp_all add: doLookup_idle doLookup_sends fetch_post_def clearUI_def frame_def)


lemma doSave_timers: "fst (frame (fst (doSave B p))) = fst (frame p)"
  by (simp add: doSave_def showStatus_text save_failed_shows get_def statement_splits
      fetch_post_def frame_def split: sum.splits)


lemma refreshAllBooks_timers: "fst (frame (fst (refreshAllBooks B p c))) = fst (frame p)"
  by (simp add: refreshAllBooks_def showStatus_text fetch_post_def frame_def)

lemma doLookup_body_frame: "frame (fst (doLookup_body B p out)) = frame p"
  by (simp add: doLookup_body_def compute_split renderLookup_frame split: sum.splits)

lemma doLookup_resume_frame: "frame (fst (doLookup_resume B p out)) = frame p"
  using doLookup_body_frame [of B p out]
  by (simp add: doLookup_resume_def try_catch_split lookup_failed_shows frame_def
      split: option.splits)


lemma doSave_body_frame: "frame (fst (doSave_body B p out)) = frame p"
  by (simp add: doSave_body_def Let_def statement_splits showStatus_text frame_def
      split: sum.splits)

lemma doSave_resume_frame: "frame (fst (doSave_resume B p out)) = frame p"
  using doSave_body_frame [of B p out]
  by (simp add: doSave_resume_def try_catch_split save_failed_shows frame_def
      split: option.splits)


lemma refreshAllBooks_body_frame: "frame (fst (refreshAllBooks_body B p out)) = frame p"
  using renderRefreshReport_frame [of B "p\<lparr>raw_json := r\<rparr>" r for r]
    showStatus_frame [of B]
  by (simp add: refreshAllBooks_body_def statement_splits frame_def
      split: sum.splits option.splits)

lemma refreshAllBooks_resume_frame: "frame (fst (refreshAllBooks_resume B p out)) = frame p"
  using refreshAllBooks_body_frame [of B p out]
  by (simp add: refreshAllBooks_resume_def try_catch_split refresh_failed_shows frame_def
      split: option.splits)


lemma cancel_timer_others:
  "code_value (cancel_timer p) = code_value p \<and> requests (cancel_timer p) = requests p"
  by (simp add: cancel_timer_def clearTimeout_def split: option.splits)

lemma reference_trim_978: "trim reference '' 978 '' = ''978''"
  by (simp add: reference_def ascii_trim_def is_space_def)

lemma reference_trim_blank: "trim reference ''  '' = []"
  by (simp add: reference_def ascii_trim_def is_space_def)

text \<open>
  C8. With a code field that is not empty after trimming, \<^verbatim>\<open>doLookup\<close> hands
  \<^verbatim>\<open>fetch\<close> one POST to \<^verbatim>\<open>/api/scan/lookup\<close> whose body has the trimmed
  text as its \<^verbatim>\<open>code\<close>, and the rest of the function, run when the response is
  there, makes no request. With a field that is empty after trimming it returns with the
  page as it was. The click on the lookup button, the Enter key and a timer running out
  make the requests of \<^verbatim>\<open>doLookup\<close> and no other.
\<close>

theorem doLookup_posts_once:
  "(trim B (code_value p) = [] \<longrightarrow> doLookup B p = (p, None))
   \<and> (trim B (code_value p) \<noteq> [] \<longrightarrow>
        snd (doLookup B p) = None
        \<and> requests (fst (doLookup B p)) =
            requests p @
              [\<lparr>req_path = ''/api/scan/lookup'', req_method = ''POST'',
                req_headers = [(''Content-Type'', ''application/json'')],
                req_body = JObj [(''code'', JStr (trim B (code_value p)))]\<rparr>]
        \<and> in_flight (fst (doLookup B p)) = in_flight p @ [(next_request p, Lookup)])
   \<and> requests (fst (doLookup_resume B p out)) = requests p
   \<and> (ev = ClickLookup \<or> ev = KeyDown ''Enter''
        \<or> (\<exists>h. ev = TimerFires h \<and> h \<in> set (map fst (timers p))) \<longrightarrow>
        requests (step B p ev) = requests (fst (doLookup B p)))"
proof -
  have resumed: "requests (fst (doLookup_resume B p out)) = requests p"
    using doLookup_resume_frame [of B p out] by (simp add: frame_def)
  have click: "requests (step B p ClickLookup) = requests (fst (doLookup B p))"
    by (simp add: step_def)
  have enter: "requests (step B p (KeyDown ''Enter'')) = requests (fst (doLookup B p))"
    using doLookup_requests [of B "cancel_timer p"] doLookup_requests [of B p]
    by (simp add: step_def cancel_timer_others)
  have fires: "requests (step B p (TimerFires h)) = requests (fst (doLookup B p))"
    if "h \<in> set (map fst (timers p))" for h
    using that doLookup_requests [of B "(clearTimeout p h)\<lparr>lookupTimer := None\<rparr>"]
      doLookup_requests [of B p]
    by (simp add: step_def clearTimeout_def)
  have events: "requests (step B p ev) = requests (fst (doLookup B p))"
    if "ev = ClickLookup \<or> ev = KeyDown ''Enter''
        \<or> (\<exists>h. ev = TimerFires h \<and> h \<in> set (map fst (timers p)))"
    using that click enter fires by blast
  have sends: "snd (doLookup B p) = None
        \<and> requests (fst (doLookup B p)) =
            requests p @
              [\<lparr>req_path = ''/api/scan/lookup'', req_method = ''POST'',
                req_headers = [(''Content-Type'', ''application/json'')],
                req_body = JObj [(''code'', JStr (trim B (code_value p)))]\<rparr>]
        \<and> in_flight (fst (doLookup B p)) = in_flight p @ [(next_request p, Lookup)]"
    if "trim B (code_value p) \<noteq> []"
    using that doLookup_no_exception [of B p] doLookup_requests [of B p]
      doLookup_in_flight [of B p]
    by simp
  from doLookup_idle [of B p] sends resumed events show ?thesis
    by blast
qed

theorem doLookup_posts_once_witness:
  "map req_body (requests (fst (doLookup reference (sample_page\<lparr>code_value := '' 978 ''\<rparr>))))
     = [JObj [(''code'', JStr ''978'')]]
   \<and> doLookup reference (sample_page\<lparr>code_value := ''  ''\<rparr>)
       = (sample_page\<lparr>code_value := ''  ''\<rparr>, None)
   \<and> map req_path (requests (step reference (sample_page\<lparr>code_value := '' 978 ''\<rparr>) ClickLookup))
       = [''/api/scan/lookup'']"
proof -
  define p where "p = sample_page\<lparr>code_value := '' 978 ''\<rparr>"
  define q where "q = sample_page\<lparr>code_value := ''  ''\<rparr>"
  have code: "trim reference (code_value p) = ''978''"
    by (simp add: p_def reference_trim_978)
  have blank: "trim reference (code_value q) = []"
    by (simp add: q_def reference_trim_blank)
  have none: "requests p = []"
    by (simp add: p_def sample_page_def)
  have a: "map req_body (requests (fst (doLookup reference p))) = [JObj [(''code'', JStr ''978'')]]"
    using doLookup_posts_once [where B = reference and p = p] code none by simp
  have b: "doLookup reference q = (q, None)"
    using doLookup_posts_once [where B = reference and p = q] blank by simp
  have c: "map req_path (requests (step reference p ClickLookup)) = [''/api/scan/lookup'']"
    using doLookup_posts_once [where B = reference and p = p and ev = ClickLookup] code none
    by simp
  from a b c show ?thesis by (simp add: p_def q_def)
qed






subsection \<open>The debounce timer\<close>

lemma timer_inv_frame: "fst (frame q) = fst (frame p) \<Longrightarrow> timer_inv q = timer_inv p"
  by (simp add: frame_def timer_inv_def split: option.splits)

lemma started_timer_inv: "started p \<Longrightarrow> timer_inv p"
  by (simp add: started_def timer_inv_def)

lemma timer_inv_length: "timer_inv p \<Longrightarrow> length (timers p) \<le> 1"
proof (cases "lookupTimer p")
  case None
  assume "timer_inv p"
  with None show ?thesis by (simp add: timer_inv_def)
next
  case (Some h)
  assume "timer_inv p"
  with Some have "length (map fst (timers p)) = 1" by (simp add: timer_inv_def)
  then show ?thesis by simp
qed

lemma timer_inv_pending:
  assumes "timer_inv p" and "lookupTimer p = Some h"
  shows "0 < h" and "h < next_timer p" and "filter (\<lambda>t. fst t \<noteq> h) (timers p) = []"
proof -
  from assms show "0 < h" and "h < next_timer p"
    by (simp_all add: timer_inv_def)
  from assms have "map fst (timers p) = [h]"
    by (simp add: timer_inv_def)
  then show "filter (\<lambda>t. fst t \<noteq> h) (timers p) = []"
    by (cases "timers p") auto
qed

lemma timer_inv_fires:
  assumes "timer_inv p" and "h \<in> set (map fst (timers p))"
  shows "lookupTimer p = Some h"
proof (cases "lookupTimer p")
  case None
  with assms show ?thesis by (simp add: timer_inv_def)
next
  case (Some k)
  with assms(1) have "map fst (timers p) = [k]" by (simp add: timer_inv_def)
  with assms(2) Some show ?thesis by simp
qed

lemma cancel_timer_inv:
  assumes "timer_inv p"
  shows "timer_inv (cancel_timer p)" and "timers (cancel_timer p) = []"
    and "lookupTimer (cancel_timer p) = None"
proof -
  have "timer_inv (cancel_timer p) \<and> timers (cancel_timer p) = []
        \<and> lookupTimer (cancel_timer p) = None"
  proof (cases "lookupTimer p")
    case None
    with assms show ?thesis by (simp add: cancel_timer_def timer_inv_def)
  next
    case (Some h)
    from timer_inv_pending [OF assms Some] assms Some show ?thesis
      by (simp add: cancel_timer_def clearTimeout_def timer_inv_def)
  qed
  then show "timer_inv (cancel_timer p)" and "timers (cancel_timer p) = []"
    and "lookupTimer (cancel_timer p) = None"
    by simp_all
qed

lemma scheduleLookup_off: "scannerMode_checked p \<noteq> Some True \<Longrightarrow> scheduleLookup B p = p"
  by (simp add: scheduleLookup_def)

lemma scheduleLookup_on:
  assumes "timer_inv p" and "scannerMode_checked p = Some True"
  shows "timers (scheduleLookup B p) = [(next_timer p, lookup_delay B p)]"
    and "lookupTimer (scheduleLookup B p) = Some (next_timer p)"
    and "next_timer (scheduleLookup B p) = Suc (next_timer p)"
proof -
  have "timers (scheduleLookup B p) = [(next_timer p, lookup_delay B p)]
        \<and> lookupTimer (scheduleLookup B p) = Some (next_timer p)
        \<and> next_timer (scheduleLookup B p) = Suc (next_timer p)"
  proof (cases "lookupTimer p")
    case None
    with assms show ?thesis
      by (simp add: scheduleLookup_def setTimeout_def Let_def timer_inv_def)
  next
    case (Some h)
    from timer_inv_pending [OF assms(1) Some] assms(2) Some show ?thesis
      by (simp add: scheduleLookup_def setTimeout_def clearTimeout_def Let_def)
  qed
  then show "timers (scheduleLookup B p) = [(next_timer p, lookup_delay B p)]"
    and "lookupTimer (scheduleLookup B p) = Some (next_timer p)"
    and "next_timer (scheduleLookup B p) = Suc (next_timer p)"
    by simp_all
qed

lemma scheduleLookup_inv: "timer_inv p \<Longrightarrow> timer_inv (scheduleLookup B p)"
proof (cases "scannerMode_checked p = Some True")
  case True
  assume inv: "timer_inv p"
  from scheduleLookup_on [OF inv True, of B] inv show ?thesis
    by (simp add: timer_inv_def)
next
  case False
  assume "timer_inv p"
  with False show ?thesis by (simp add: scheduleLookup_off)
qed

lemma updateScannerUI_timers: "fst (frame (fst (updateScannerUI B p))) = fst (frame p)"
  by (simp add: updateScannerUI_def frame_def split: option.splits)

lemma restore_timers: "fst (frame (restore_delay (restore_mode p))) = fst (frame p)"
  by (simp add: restore_delay_def restore_mode_def getCookie_def frame_def split: option.splits)

lemma settle_timers: "fst (frame (fst (settle B p r out))) = fst (frame p)"
proof (cases "map_of (in_flight p) r")
  case None
  then show ?thesis by (simp add: settle_def)
next
  case (Some a)
  define p1 where "p1 = p\<lparr>in_flight := filter (\<lambda>x. fst x \<noteq> r) (in_flight p)\<rparr>"
  have "fst (frame p1) = fst (frame p)"
    by (simp add: p1_def frame_def)
  with Some doLookup_resume_frame [of B p1 out] doSave_resume_frame [of B p1 out]
    refreshAllBooks_resume_frame [of B p1 out]
  show ?thesis
    by (cases a) (simp_all add: settle_def p1_def [symmetric])
qed

lemma step_timers_kept:
  assumes "ev \<noteq> ClickClear" and "\<And>k. ev \<noteq> KeyDown k" and "\<And>v. ev \<noteq> Input v"
    and "\<And>h. ev \<noteq> TimerFires h"
  shows "fst (frame (step B p ev)) = fst (frame p)"
proof (cases ev)
  case Load
  have "fst (frame (step B p Load)) = fst (frame (restore_delay (restore_mode (clearUI p))))"
    by (simp add: step_def updateScannerUI_timers)
  also have "\<dots> = fst (frame (clearUI p))"
    by (rule restore_timers)
  also have "\<dots> = fst (frame p)"
    by (simp add: clearUI_frame)
  finally show ?thesis using Load by simp
next
  case ClickLookup
  then show ?thesis by (simp add: step_def doLookup_timers)
next
  case ClickSave
  have "fst (frame ((fst (doSave B p))\<lparr>code_value := []\<rparr>)) = fst (frame (fst (doSave B p)))"
    by (simp add: frame_def)
  with ClickSave show ?thesis by (simp add: step_def Let_def doSave_timers)
next
  case (ChangeScannerMode b)
  define q where "q = setCookie (p\<lparr>scannerMode_checked := Some b\<rparr>) ''scanner_mode''
                        (if b then ''1'' else ''0'')"
  have "fst (frame q) = fst (frame p)"
    by (simp add: q_def setCookie_def frame_def)
  with ChangeScannerMode show ?thesis
    by (simp add: step_def updateScannerUI_timers q_def [symmetric])
next
  case (ChangeScannerDelay v)
  then show ?thesis
    by (simp add: step_def setCookie_def frame_def split: option.splits)
next
  case (ToggleDryRun b)
  then show ?thesis by (simp add: step_def frame_def)
next
  case (ClickRefreshAll c)
  then show ?thesis by (simp add: step_def refreshAllBooks_timers)
next
  case (Settles r out)
  then show ?thesis by (simp add: step_def settle_timers)
qed (use assms in simp_all)

lemma step_timer_inv:
  assumes inv: "timer_inv p"
  shows "timer_inv (step B p ev)"
proof -
  consider (clear) "ev = ClickClear" | (key) k where "ev = KeyDown k"
    | (input) v where "ev = Input v" | (fires) h where "ev = TimerFires h"
    | (other) "ev \<noteq> ClickClear" "\<And>k. ev \<noteq> KeyDown k" "\<And>v. ev \<noteq> Input v"
        "\<And>h. ev \<noteq> TimerFires h"
    by (cases ev) simp_all
  then show ?thesis
  proof cases
    case clear
    have "fst (frame ((clearUI p)\<lparr>code_value := []\<rparr>)) = fst (frame p)"
      by (simp add: clearUI_def frame_def)
    then have "timer_inv ((clearUI p)\<lparr>code_value := []\<rparr>)"
      using inv timer_inv_frame by blast
    from cancel_timer_inv(1) [OF this] clear show ?thesis
      by (simp add: step_def)
  next
    case key
    show ?thesis
    proof (cases "k = ''Enter''")
      case True
      have "timer_inv (fst (doLookup B (cancel_timer p))) = timer_inv (cancel_timer p)"
        by (rule timer_inv_frame) (rule doLookup_timers)
      with key True cancel_timer_inv(1) [OF inv] show ?thesis
        by (simp add: step_def)
    next
      case False
      with key inv show ?thesis by (simp add: step_def)
    qed
  next
    case input
    have "fst (frame (p\<lparr>code_value := v\<rparr>)) = fst (frame p)"
      by (simp add: frame_def)
    then have "timer_inv (p\<lparr>code_value := v\<rparr>)"
      using inv timer_inv_frame by blast
    from scheduleLookup_inv [OF this] input show ?thesis
      by (simp add: step_def)
  next
    case fires
    show ?thesis
    proof (cases "h \<in> set (map fst (timers p))")
      case True
      define q where "q = (clearTimeout p h)\<lparr>lookupTimer := None\<rparr>"
      from timer_inv_fires [OF inv True] have pending: "lookupTimer p = Some h" .
      from timer_inv_pending [OF inv pending] inv have "timer_inv q"
        by (simp add: q_def clearTimeout_def timer_inv_def)
      moreover have "timer_inv (fst (doLookup B q)) = timer_inv q"
        by (rule timer_inv_frame) (rule doLookup_timers)
      ultimately show ?thesis using True fires
        by (simp add: step_def q_def)
    next
      case False
      with fires inv show ?thesis by (simp add: step_def)
    qed
  next
    case other
    from step_timers_kept [OF other, of B p] inv timer_inv_frame show ?thesis
      by blast
  qed
qed

lemma run_timer_inv: "timer_inv p \<Longrightarrow> timer_inv (run B p evs)"
proof (induction evs arbitrary: p)
  case Nil
  then show ?case by (simp add: run_def)
next
  case (Cons ev evs)
  from Cons.IH [OF step_timer_inv [OF Cons.prems]] show ?case
    by (simp add: run_Cons)
qed

lemma run_snoc: "run B p (evs @ [ev]) = step B (run B p evs) ev"
  by (simp add: run_def)

lemma input_step:
  assumes "timer_inv p" and "scannerMode_checked p = Some True"
  shows "timers (step B p (Input v)) = [(next_timer p, lookup_delay B p)]"
    and "lookupTimer (step B p (Input v)) = Some (next_timer p)"
    and "next_timer (step B p (Input v)) = Suc (next_timer p)"
    and "code_value (step B p (Input v)) = v"
    and "requests (step B p (Input v)) = requests p"
    and "scannerMode_checked (step B p (Input v)) = Some True"
    and "scannerDelayInput (step B p (Input v)) = scannerDelayInput p"
proof -
  define q where "q = p\<lparr>code_value := v\<rparr>"
  have q: "timer_inv q" "scannerMode_checked q = Some True"
    using assms by (simp_all add: q_def timer_inv_def split: option.splits)
  have same: "next_timer q = next_timer p" "lookup_delay B q = lookup_delay B p"
    by (simp_all add: q_def lookup_delay_def)
  from scheduleLookup_on [OF q, of B] same
  show "timers (step B p (Input v)) = [(next_timer p, lookup_delay B p)]"
    and "lookupTimer (step B p (Input v)) = Some (next_timer p)"
    and "next_timer (step B p (Input v)) = Suc (next_timer p)"
    by (simp_all add: step_def q_def)
  from q(2) show "code_value (step B p (Input v)) = v"
    and "requests (step B p (Input v)) = requests p"
    and "scannerMode_checked (step B p (Input v)) = Some True"
    and "scannerDelayInput (step B p (Input v)) = scannerDelayInput p"
    by (simp_all add: step_def q_def scheduleLookup_def setTimeout_def clearTimeout_def Let_def
        split: option.splits)
qed

lemma input_burst:
  assumes "vs \<noteq> []" and "timer_inv p" and "scannerMode_checked p = Some True"
  shows "timer_inv (run B p (map Input vs))
         \<and> scannerMode_checked (run B p (map Input vs)) = Some True
         \<and> scannerDelayInput (run B p (map Input vs)) = scannerDelayInput p
         \<and> timers (run B p (map Input vs))
             = [(next_timer p + length vs - 1, lookup_delay B p)]
         \<and> lookupTimer (run B p (map Input vs)) = Some (next_timer p + length vs - 1)
         \<and> next_timer (run B p (map Input vs)) = next_timer p + length vs
         \<and> code_value (run B p (map Input vs)) = last vs
         \<and> requests (run B p (map Input vs)) = requests p"
  using assms
proof (induction vs rule: rev_nonempty_induct)
  case (single v)
  from input_step [OF single, of B v] step_timer_inv [OF single(1), of B "Input v"]
  show ?case by (simp add: run_def)
next
  case (snoc v vs)
  define q where "q = run B p (map Input vs)"
  from snoc.IH [OF snoc.prems]
  have q: "timer_inv q" "scannerMode_checked q = Some True"
    "scannerDelayInput q = scannerDelayInput p" "next_timer q = next_timer p + length vs"
    "requests q = requests p"
    by (simp_all add: q_def)
  have delay: "lookup_delay B q = lookup_delay B p"
    using q(3) by (simp add: lookup_delay_def)
  have run: "run B p (map Input (vs @ [v])) = step B q (Input v)"
    by (simp add: q_def run_snoc)
  from input_step [OF q(1,2), of B v] step_timer_inv [OF q(1), of B "Input v"] q(3,4,5) delay
  show ?case unfolding run by simp
qed

lemma timer_fires_requests:
  assumes "h \<in> set (map fst (timers q))"
  shows "requests (step B q (TimerFires h)) =
           requests q @
             (if trim B (code_value q) = [] then []
              else [\<lparr>req_path = ''/api/scan/lookup'', req_method = ''POST'',
                     req_headers = [(''Content-Type'', ''application/json'')],
                     req_body = JObj [(''code'', JStr (trim B (code_value q)))]\<rparr>])"
  using assms doLookup_requests [of B "(clearTimeout q h)\<lparr>lookupTimer := None\<rparr>"]
  by (simp add: step_def clearTimeout_def)

text \<open>
  C6, as the code has it. A page starts with the timer variable and the timers of the
  browser in agreement, every event keeps them so, and then at most one timer is
  pending, at every point of every run. In scanner mode an input event on a page with a
  pending timer drops that timer and sets a new one; after a burst of input events in
  scanner mode exactly one timer is pending, the one of the last event, with the last
  text in the code field and no request made, and when it runs out the lookup is for
  that last text. (With scanner mode switched off,
  \<^verbatim>\<open>scheduleLookup\<close> returns at once and a timer already pending stays.)
\<close>

theorem one_debounce_timer:
  "(started p \<longrightarrow> timer_inv p \<and> length (timers (run B p evs)) \<le> 1)
   \<and> (timer_inv p \<longrightarrow> timer_inv (step B p ev) \<and> length (timers p) \<le> 1)
   \<and> (timer_inv p \<and> lookupTimer p = Some h \<and> scannerMode_checked p = Some True \<longrightarrow>
        h \<noteq> next_timer p
        \<and> timers (step B p (Input v)) = [(next_timer p, lookup_delay B p)]
        \<and> lookupTimer (step B p (Input v)) = Some (next_timer p))
   \<and> (timer_inv p \<and> scannerMode_checked p = Some True \<and> vs \<noteq> [] \<longrightarrow>
        timers (run B p (map Input vs)) = [(next_timer p + length vs - 1, lookup_delay B p)]
        \<and> lookupTimer (run B p (map Input vs)) = Some (next_timer p + length vs - 1)
        \<and> code_value (run B p (map Input vs)) = last vs
        \<and> requests (run B p (map Input vs)) = requests p
        \<and> requests (step B (run B p (map Input vs)) (TimerFires (next_timer p + length vs - 1)))
            = requests p @
                (if trim B (last vs) = [] then []
                 else [\<lparr>req_path = ''/api/scan/lookup'', req_method = ''POST'',
                        req_headers = [(''Content-Type'', ''application/json'')],
                        req_body = JObj [(''code'', JStr (trim B (last vs)))]\<rparr>]))"
proof -
  have runs: "timer_inv p \<and> length (timers (run B p evs)) \<le> 1" if "started p"
    using started_timer_inv [OF that] timer_inv_length [OF run_timer_inv, of p B evs]
    by simp
  have steps: "timer_inv (step B p ev) \<and> length (timers p) \<le> 1" if "timer_inv p"
    using that step_timer_inv [of p B ev] timer_inv_length [of p] by simp
  have resets: "h \<noteq> next_timer p
        \<and> timers (step B p (Input v)) = [(next_timer p, lookup_delay B p)]
        \<and> lookupTimer (step B p (Input v)) = Some (next_timer p)"
    if "timer_inv p \<and> lookupTimer p = Some h \<and> scannerMode_checked p = Some True"
    using that input_step(1,2) [of p B v] timer_inv_pending(2) [of p h] by auto
  have burst: "timers (run B p (map Input vs)) = [(next_timer p + length vs - 1, lookup_delay B p)]
        \<and> lookupTimer (run B p (map Input vs)) = Some (next_timer p + length vs - 1)
        \<and> code_value (run B p (map Input vs)) = last vs
        \<and> requests (run B p (map Input vs)) = requests p
        \<and> requests (step B (run B p (map Input vs)) (TimerFires (next_timer p + length vs - 1)))
            = requests p @
                (if trim B (last vs) = [] then []
                 else [\<lparr>req_path = ''/api/scan/lookup'', req_method = ''POST'',
                        req_headers = [(''Content-Type'', ''application/json'')],
                        req_body = JObj [(''code'', JStr (trim B (last vs)))]\<rparr>])"
    if "timer_inv p \<and> scannerMode_checked p = Some True \<and> vs \<noteq> []"
  proof -
    define q where "q = run B p (map Input vs)"
    define h where "h = next_timer p + length vs - 1"
    from that input_burst [of vs p B]
    have q: "timers q = [(h, lookup_delay B p)]" "lookupTimer q = Some h"
      "code_value q = last vs" "requests q = requests p"
      by (simp_all add: q_def h_def)
    then have "h \<in> set (map fst (timers q))" by simp
    from timer_fires_requests [OF this, of B] q show ?thesis
      by (simp add: q_def h_def)
  qed
  from runs steps resets burst show ?thesis by blast
qed

lemma sample_page_started: "started sample_page"
  by (simp add: started_def sample_page_def)

lemma sample_page_delay: "lookup_delay reference sample_page = Fin 250"
  by (simp add: lookup_delay_def delay_number_def sample_page_def decimal_number_defs
      Math_clamp_Fin)

lemma typed_page:
  "lookupTimer typed = Some 1 \<and> scannerMode_checked typed = Some True \<and> next_timer typed = 2
   \<and> scannerDelayInput typed = scannerDelayInput sample_page"
  unfolding typed_def by code_simp

theorem one_debounce_timer_witness:
  "length (timers (run reference sample_page
                     [Input ''9'', Input ''97'', ClickLookup, TimerFires 2])) \<le> 1
   \<and> timers (step reference typed (Input ''97'')) = [(2, Fin 250)]
   \<and> lookupTimer (step reference typed (Input ''97'')) = Some 2
   \<and> timers (run reference sample_page (map Input [''9'', ''97'', ''978''])) = [(3, Fin 250)]
   \<and> code_value (run reference sample_page (map Input [''9'', ''97'', ''978''])) = ''978''
   \<and> map req_body
        (requests (step reference (run reference sample_page (map Input [''9'', ''97'', ''978'']))
                     (TimerFires 3)))
       = [JObj [(''code'', JStr ''978'')]]"
proof -
  have inv: "timer_inv sample_page"
    and a: "length (timers (run reference sample_page
                     [Input ''9'', Input ''97'', ClickLookup, TimerFires 2])) \<le> 1"
    using one_debounce_timer
      [where p = sample_page and B = reference
         and evs = "[Input ''9'', Input ''97'', ClickLookup, TimerFires 2]"]
      sample_page_started
    by simp_all
  have typed_inv: "timer_inv typed"
    using one_debounce_timer
      [where p = sample_page and B = reference and ev = "Input ''9780132350884''"] inv
    by (simp add: typed_def)
  have typed_delay: "lookup_delay reference typed = Fin 250"
    using typed_page sample_page_delay by (simp add: lookup_delay_def)
  have b: "timers (step reference typed (Input ''97'')) = [(2, Fin 250)]
           \<and> lookupTimer (step reference typed (Input ''97'')) = Some 2"
    using one_debounce_timer
      [where p = typed and B = reference and h = 1 and v = "''97''"]
      typed_inv typed_page typed_delay
    by simp
  have mode: "scannerMode_checked sample_page = Some True"
    and first_handle: "next_timer sample_page = 1"
    by (simp_all add: sample_page_def)
  have code: "trim reference ''978'' = ''978''"
    by (simp add: reference_def ascii_trim_def is_space_def)
  have none: "requests sample_page = []"
    by (simp add: sample_page_def)
  have c: "timers (run reference sample_page (map Input [''9'', ''97'', ''978''])) = [(3, Fin 250)]
           \<and> code_value (run reference sample_page (map Input [''9'', ''97'', ''978''])) = ''978''
           \<and> map req_body
                (requests (step reference
                             (run reference sample_page (map Input [''9'', ''97'', ''978'']))
                             (TimerFires 3)))
               = [JObj [(''code'', JStr ''978'')]]"
    using one_debounce_timer
      [where p = sample_page and B = reference and vs = "[''9'', ''97'', ''978'']"]
      inv mode first_handle sample_page_delay code none
    by (simp add: numeral_3_eq_3)
  from a b c show ?thesis by simp
qed

text \<open>
  C6 as written fails once scanner mode is switched off while a timer is pending: the
  next input event leaves that timer in place and sets none, and the timer of the
  earlier event still runs out into a lookup.
\<close>

theorem input_with_scanner_mode_off:
  "lookupTimer switched_off = Some 1
   \<and> timers switched_off = [(1, Fin 250)]
   \<and> scannerMode_checked switched_off = Some False
   \<and> timers (step reference switched_off (Input ''97'')) = [(1, Fin 250)]
   \<and> lookupTimer (step reference switched_off (Input ''97'')) = Some 1
   \<and> map req_body (requests (run reference switched_off [Input ''97'', TimerFires 1]))
       = [JObj [(''code'', JStr ''97'')]]"
  unfolding switched_off_def typed_def by code_simp

text \<open>
  C1 on the code. A code is typed in scanner mode and its timer is running. The click on
  the lookup button runs \<^verbatim>\<open>doLookup\<close> and leaves the timer: the handle is still in
  \<^verbatim>\<open>lookupTimer\<close>, the timer runs out and a second request for the same code goes
  out. The Enter key clears the timer first, and one request goes out.
\<close>

theorem lookup_click_keeps_timer:
  "lookupTimer typed = Some 1
   \<and> timers typed = [(1, Fin 250)]
   \<and> timers (step reference typed ClickLookup) = [(1, Fin 250)]
   \<and> lookupTimer (step reference typed ClickLookup) = Some 1
   \<and> map req_body (requests (run reference typed [ClickLookup, TimerFires 1]))
       = [JObj [(''code'', JStr ''9780132350884'')], JObj [(''code'', JStr ''9780132350884'')]]
   \<and> timers (step reference typed (KeyDown ''Enter'')) = []
   \<and> lookupTimer (step reference typed (KeyDown ''Enter'')) = None
   \<and> map req_body (requests (run reference typed [KeyDown ''Enter'', TimerFires 1]))
       = [JObj [(''code'', JStr ''9780132350884'')]]"
  unfolding typed_def by code_simp

section \<open>The scenarios of the specification\<close>

text \<open>
  The four scenarios of the specification, run on the sample page: a lookup answered
  with a book, a lookup answered with an error, three input events in scanner mode with
  the delay at 100, and a refresh answered with its counts and two items.
\<close>

lemma scenario_book:
  "status_textContent first_shown = ''OK: ISBN 9780132350884''
   \<and> title_textContent first_shown = ''Clean Code''
   \<and> \<not> btnSave_disabled first_shown"
  unfolding first_shown_def two_lookups_def by code_simp

lemma scenario_not_found:
  "status_textContent (step reference lookup_pending (Settles 1 (ok_response not_found_text)))
     = ''Not found''
   \<and> status_borderColor (step reference lookup_pending (Settles 1 (ok_response not_found_text)))
     = ''#d33''
   \<and> btnSave_disabled (step reference lookup_pending (Settles 1 (ok_response not_found_text)))"
  unfolding lookup_pending_def by code_simp

lemma scenario_three_inputs:
  "timers (run reference sample_page
             [ChangeScannerDelay ''100'', Input ''9'', Input ''97'', Input ''978''])
     = [(3, Fin 100)]
   \<and> map req_body
        (requests (run reference sample_page
                     [ChangeScannerDelay ''100'', Input ''9'', Input ''97'', Input ''978'',
                      TimerFires 3]))
     = [JObj [(''code'', JStr ''978'')]]"
  by code_simp

lemma scenario_refresh:
  "status_textContent
     (run reference sample_page [ClickRefreshAll True, Settles 1 (ok_response refresh_text)])
     = ''Done: 2 updated'' @ middle_dot_sep @ ''1 skipped'' @ middle_dot_sep @ ''0 failed''
   \<and> refreshList_innerHTML
       (run reference sample_page [ClickRefreshAll True, Settles 1 (ok_response refresh_text)])
     = Some (item_markup ''A'' [] ''unknown'' @ item_markup ''B'' [] ''unknown'')"
  by code_simp

end
